theory Spec2Isabelle
  imports Complex_Main
begin

section \<open>Mask generation and frame transforms of \<^verbatim>\<open>models/transform.py\<close>\<close>

text \<open>
  The development embeds the functions of \<^verbatim>\<open>src/models/transform.py\<close>.
  Python floats are idealised as \<^typ>\<open>real\<close>, Python integers are \<^typ>\<open>int\<close>,
  exceptions are values of \<open>error + 'a\<close>, and the process-wide random generators
  (\<^verbatim>\<open>np.random\<close>, \<^verbatim>\<open>random\<close>) are an explicit state that every function
  that draws from them takes and returns.
\<close>

subsection \<open>Exceptions\<close>

datatype error =
    NotImplementedError string
  | ValueError
  | IndexError
  | AssertionError
  | UnboundLocalError

subsection \<open>The random generator\<close>

text \<open>
  A generator is a position on three tapes of raw draws: uniform draws of
  \<^verbatim>\<open>random_sample()\<close> (meant to lie in \<open>[0, 1)\<close>), standard normal draws, and raw
  naturals from which bounded integers are cut. Every library call reads the tapes at
  the current position and advances it by one.
\<close>

record rng =
  pos :: nat
  uniforms :: "nat \<Rightarrow> real"
  normals :: "nat \<Rightarrow> real"
  naturals :: "nat \<Rightarrow> nat"

type_synonym 'a rand = "rng \<Rightarrow> error + 'a \<times> rng"

definition tick :: "rng \<Rightarrow> rng" where
  "tick g = g\<lparr>pos := Suc (pos g)\<rparr>"

definition const_rng :: "real \<Rightarrow> real \<Rightarrow> nat \<Rightarrow> rng" where
  "const_rng u z k = \<lparr>pos = 0, uniforms = (\<lambda>_. u), normals = (\<lambda>_. z), naturals = (\<lambda>_. k)\<rparr>"

definition unit_draws :: "rng \<Rightarrow> bool" where
  "unit_draws g = (\<forall>n. 0 \<le> uniforms g n \<and> uniforms g n < 1)"

definition ret :: "'a \<Rightarrow> 'a rand" where
  "ret x g = Inr (x, g)"

definition raise :: "error \<Rightarrow> 'a rand" where
  "raise e g = Inl e"

definition rbind :: "'a rand \<Rightarrow> ('a \<Rightarrow> 'b rand) \<Rightarrow> 'b rand" where
  "rbind m f g = (case m g of Inl e \<Rightarrow> Inl e | Inr (x, g') \<Rightarrow> f x g')"

text \<open>A call that draws nothing: its result or its exception, the generator untouched.\<close>

definition lift :: "error + 'a \<Rightarrow> 'a rand" where
  "lift r g = (case r of Inl e \<Rightarrow> Inl e | Inr x \<Rightarrow> Inr (x, g))"

text \<open>\<^verbatim>\<open>np.random.uniform(low, high)\<close> is \<^verbatim>\<open>low + (high - low) * random_sample()\<close>.\<close>

definition random_uniform :: "real \<Rightarrow> real \<Rightarrow> real rand" where
  "random_uniform low high g = Inr (low + (high - low) * uniforms g (pos g), tick g)"

text \<open>\<^verbatim>\<open>np.random.normal(loc, scale)\<close> rejects a negative scale with \<^verbatim>\<open>ValueError\<close>.\<close>

definition random_normal :: "real \<Rightarrow> real \<Rightarrow> real rand" where
  "random_normal loc scale g =
     (if scale < 0 then Inl ValueError
      else Inr (loc + scale * normals g (pos g), tick g))"

text \<open>\<^verbatim>\<open>np.random.randint(low, high)\<close> draws from \<open>[low, high)\<close> and rejects an empty range.\<close>

definition np_randint :: "int \<Rightarrow> int \<Rightarrow> int rand" where
  "np_randint low high g =
     (if low \<ge> high then Inl ValueError
      else Inr (low + int (naturals g (pos g) mod nat (high - low)), tick g))"

subsection \<open>Velocity model\<close>

type_synonym velocity = "real \<times> real"

definition unsupported :: "string \<Rightarrow> error" where
  "unsupported dist' = NotImplementedError (''Distribution type '' @ dist' @ '' is not supported.'')"

definition random_accelerate :: "velocity \<Rightarrow> real \<times> real \<Rightarrow> string \<Rightarrow> velocity rand" where
  "random_accelerate velocity maxAcceleration dist' =
     (case velocity of (speed, angle) \<Rightarrow>
      case maxAcceleration of (d_speed, d_angle) \<Rightarrow>
        if dist' = ''uniform'' then
          rbind (random_uniform (- d_speed) d_speed) (\<lambda>a.
          rbind (random_uniform (- d_angle) d_angle) (\<lambda>b.
          ret (speed + a, angle + b)))
        else if dist' = ''guassian'' then
          rbind (random_normal 0 (d_speed / 2)) (\<lambda>a.
          rbind (random_normal 0 (d_angle / 2)) (\<lambda>b.
          ret (speed + a, angle + b)))
        else raise (unsupported dist'))"

text \<open>
  In the uniform branch the source calls \<^verbatim>\<open>np.random.uniform(max_speed)\<close>: the single
  positional argument binds \<^verbatim>\<open>low\<close>, and \<^verbatim>\<open>high\<close> keeps its default \<open>1.0\<close>.
\<close>

definition get_random_velocity :: "real \<Rightarrow> string \<Rightarrow> velocity rand" where
  "get_random_velocity max_speed dist' =
     rbind
       (if dist' = ''uniform'' then random_uniform max_speed 1
        else if dist' = ''guassian'' then
          rbind (random_normal 0 (max_speed / 2)) (\<lambda>z. ret \<bar>z\<bar>)
        else raise (unsupported dist'))
       (\<lambda>speed. rbind (random_uniform 0 (2 * pi)) (\<lambda>angle. ret (speed, angle)))"

subsection \<open>Python and numpy helpers\<close>

text \<open>\<^verbatim>\<open>int(x)\<close> on a float truncates towards zero.\<close>

definition py_int :: "real \<Rightarrow> int" where
  "py_int x = (if 0 \<le> x then \<lfloor>x\<rfloor> else \<lceil>x\<rceil>)"

text \<open>\<^verbatim>\<open>np.clip(x, a_min, a_max)\<close> is \<^verbatim>\<open>minimum(maximum(x, a_min), a_max)\<close>.\<close>

definition np_clip :: "'a::linorder \<Rightarrow> 'a \<Rightarrow> 'a \<Rightarrow> 'a" where
  "np_clip x a_min a_max = min (max x a_min) a_max"

text \<open>The slice \<^verbatim>\<open>xs[:k]\<close>; a negative \<open>k\<close> counts from the end.\<close>

definition slice_to :: "int \<Rightarrow> 'a list \<Rightarrow> 'a list" where
  "slice_to k xs = (if 0 \<le> k then take (nat k) xs else take (nat (int (length xs) + k)) xs)"

definition swap :: "nat \<Rightarrow> nat \<Rightarrow> 'a list \<Rightarrow> 'a list" where
  "swap i j xs = xs[i := xs ! j, j := xs ! i]"

text \<open>
  \<^verbatim>\<open>np.random.shuffle(x)\<close> is the Fisher-Yates loop
  \<^verbatim>\<open>for i in reversed(range(1, n)): j = random_interval(i); x[i], x[j] = x[j], x[i]\<close>
  with \<open>j\<close> drawn from \<open>[0, i]\<close>.
\<close>

fun shuffle_from :: "nat \<Rightarrow> 'a list \<Rightarrow> rng \<Rightarrow> 'a list \<times> rng" where
  "shuffle_from 0 x g = (x, g)"
| "shuffle_from (Suc k) x g =
     shuffle_from k (swap (Suc k) (naturals g (pos g) mod Suc (Suc k)) x) (tick g)"

definition np_shuffle :: "'a list \<Rightarrow> 'a list rand" where
  "np_shuffle x g = Inr (shuffle_from (length x - 1) x g)"

subsection \<open>Stroke animator\<close>

text \<open>
  The loop \<^verbatim>\<open>for i in chosen\<close> of \<^verbatim>\<open>random_move_control_points\<close>, on the
  values of the two working arrays and the flag \<^verbatim>\<open>new_velocity\<close>. An index outside
  an array raises \<^verbatim>\<open>IndexError\<close> when the element is read, before the jitter is drawn.
  The source writes each chosen element twice, after the jitter and after the clipping;
  on values only the second write remains. The version on a store further down keeps both.
\<close>

fun move_chosen ::
  "nat list \<Rightarrow> int \<Rightarrow> int \<Rightarrow> int \<Rightarrow> int \<Rightarrow> real list \<times> real list \<times> bool
     \<Rightarrow> (real list \<times> real list \<times> bool) rand" where
  "move_chosen [] imageWidth imageHeight maxPiontMove boarderGap st = ret st"
| "move_chosen (i # chosen) imageWidth imageHeight maxPiontMove boarderGap st =
     (case st of (new_Xs, new_Ys, new_velocity) \<Rightarrow>
        if i \<ge> length new_Xs then raise IndexError
        else rbind (np_randint (- maxPiontMove) maxPiontMove) (\<lambda>dx.
          if i \<ge> length new_Ys then raise IndexError
          else rbind (np_randint (- maxPiontMove) maxPiontMove) (\<lambda>dy.
            let x = new_Xs ! i + of_int dx;
                y = new_Ys ! i + of_int dy;
                new_velocity' =
                  (if \<not> new_velocity \<and>
                      (x > of_int imageWidth \<or> x < 0 \<or> y > of_int imageHeight \<or> y < 0)
                   then True else new_velocity);
                new_Xs' = new_Xs[i := np_clip x (of_int boarderGap) (of_int (imageWidth - boarderGap))];
                new_Ys' = new_Ys[i := np_clip y (of_int boarderGap) (of_int (imageHeight - boarderGap))]
            in move_chosen chosen imageWidth imageHeight maxPiontMove boarderGap
                 (new_Xs', new_Ys', new_velocity'))))"

definition random_move_control_points ::
  "real list \<Rightarrow> real list \<Rightarrow> int \<Rightarrow> int \<Rightarrow> velocity \<Rightarrow> real \<Rightarrow> int \<Rightarrow> real \<times> real
     \<Rightarrow> int \<Rightarrow> real \<Rightarrow> (real list \<times> real list \<times> velocity) rand" where
  "random_move_control_points Xs Ys imageWidth imageHeight lineVelocity nMovePointRatio
     maxPiontMove maxLineAcceleration boarderGap maxInitSpeed =
     (case lineVelocity of (speed, angle) \<Rightarrow>
      let new_Xs = map (\<lambda>x. x + of_int (py_int (speed * cos angle))) Xs;
          new_Ys = map (\<lambda>y. y + of_int (py_int (speed * sin angle))) Ys
      in
      rbind (random_accelerate lineVelocity maxLineAcceleration ''guassian'') (\<lambda>lineVelocity'.
      rbind (np_shuffle [0..<length Xs]) (\<lambda>shuffled.
      let chosen = slice_to (py_int (real (length Xs) * nMovePointRatio)) shuffled in
      rbind (move_chosen chosen imageWidth imageHeight maxPiontMove boarderGap
               (new_Xs, new_Ys, False)) (\<lambda>(new_Xs', new_Ys', new_velocity).
      rbind (if new_velocity then get_random_velocity maxInitSpeed ''guassian''
             else ret lineVelocity') (\<lambda>lineVelocity''.
      ret (new_Xs', new_Ys', lineVelocity''))))))"

subsection \<open>The stroke animator on a store of arrays\<close>

text \<open>
  To speak about what \<^verbatim>\<open>random_move_control_points\<close> does to the arrays it is handed,
  numpy arrays are addresses into a store. \<^verbatim>\<open>a.copy()\<close> allocates the next unused
  address; \<^verbatim>\<open>a += k\<close>, \<^verbatim>\<open>a[i]\<close> and \<^verbatim>\<open>a[i] = v\<close> read or write the array at an
  address. A program returns its result or its exception together with the store and
  the generator it leaves.
\<close>

record store =
  cells :: "nat \<Rightarrow> real list"
  next_addr :: nat

type_synonym 'a prog = "store \<times> rng \<Rightarrow> (error + 'a) \<times> store \<times> rng"

definition preturn :: "'a \<Rightarrow> 'a prog" where
  "preturn x s = (Inr x, s)"

definition pbind :: "'a prog \<Rightarrow> ('a \<Rightarrow> 'b prog) \<Rightarrow> 'b prog" where
  "pbind m f s = (case m s of (Inl e, s') \<Rightarrow> (Inl e, s') | (Inr x, s') \<Rightarrow> f x s')"

definition from_rand :: "'a rand \<Rightarrow> 'a prog" where
  "from_rand m s =
     (case s of (h, g) \<Rightarrow>
        case m g of Inl e \<Rightarrow> (Inl e, (h, g)) | Inr (x, g') \<Rightarrow> (Inr x, (h, g')))"

definition array_copy :: "nat \<Rightarrow> nat prog" where
  "array_copy a s =
     (case s of (h, g) \<Rightarrow>
        (Inr (next_addr h),
         (h\<lparr>cells := (cells h)(next_addr h := cells h a), next_addr := Suc (next_addr h)\<rparr>, g)))"

definition array_iadd :: "nat \<Rightarrow> real \<Rightarrow> unit prog" where
  "array_iadd a k s =
     (case s of (h, g) \<Rightarrow>
        (Inr (), (h\<lparr>cells := (cells h)(a := map (\<lambda>x. x + k) (cells h a))\<rparr>, g)))"

definition array_len :: "nat \<Rightarrow> nat prog" where
  "array_len a s = (case s of (h, g) \<Rightarrow> (Inr (length (cells h a)), (h, g)))"

definition getitem :: "nat \<Rightarrow> nat \<Rightarrow> real prog" where
  "getitem a i s =
     (case s of (h, g) \<Rightarrow>
        if i \<ge> length (cells h a) then (Inl IndexError, (h, g))
        else (Inr (cells h a ! i), (h, g)))"

definition setitem :: "nat \<Rightarrow> nat \<Rightarrow> real \<Rightarrow> unit prog" where
  "setitem a i v s =
     (case s of (h, g) \<Rightarrow>
        if i \<ge> length (cells h a) then (Inl IndexError, (h, g))
        else (Inr (), (h\<lparr>cells := (cells h)(a := (cells h a)[i := v])\<rparr>, g)))"

fun move_chosen_store ::
  "nat list \<Rightarrow> int \<Rightarrow> int \<Rightarrow> int \<Rightarrow> int \<Rightarrow> nat \<Rightarrow> nat \<Rightarrow> bool \<Rightarrow> bool prog" where
  "move_chosen_store [] imageWidth imageHeight maxPiontMove boarderGap new_Xs new_Ys new_velocity =
     preturn new_velocity"
| "move_chosen_store (i # chosen) imageWidth imageHeight maxPiontMove boarderGap new_Xs new_Ys
     new_velocity =
     pbind (getitem new_Xs i) (\<lambda>x0.
     pbind (from_rand (np_randint (- maxPiontMove) maxPiontMove)) (\<lambda>dx.
     pbind (setitem new_Xs i (x0 + of_int dx)) (\<lambda>_.
     pbind (getitem new_Ys i) (\<lambda>y0.
     pbind (from_rand (np_randint (- maxPiontMove) maxPiontMove)) (\<lambda>dy.
     pbind (setitem new_Ys i (y0 + of_int dy)) (\<lambda>_.
     pbind (getitem new_Xs i) (\<lambda>x.
     pbind (getitem new_Ys i) (\<lambda>y.
     pbind (setitem new_Xs i
              (np_clip x (of_int boarderGap) (of_int (imageWidth - boarderGap)))) (\<lambda>_.
     pbind (setitem new_Ys i
              (np_clip y (of_int boarderGap) (of_int (imageHeight - boarderGap)))) (\<lambda>_.
     move_chosen_store chosen imageWidth imageHeight maxPiontMove boarderGap new_Xs new_Ys
       (if \<not> new_velocity \<and>
           (x > of_int imageWidth \<or> x < 0 \<or> y > of_int imageHeight \<or> y < 0)
        then True else new_velocity)))))))))))"

definition random_move_control_points_store ::
  "nat \<Rightarrow> nat \<Rightarrow> int \<Rightarrow> int \<Rightarrow> velocity \<Rightarrow> real \<Rightarrow> int \<Rightarrow> real \<times> real \<Rightarrow> int \<Rightarrow> real
     \<Rightarrow> (nat \<times> nat \<times> velocity) prog" where
  "random_move_control_points_store Xs Ys imageWidth imageHeight lineVelocity nMovePointRatio
     maxPiontMove maxLineAcceleration boarderGap maxInitSpeed =
     pbind (array_copy Xs) (\<lambda>new_Xs.
     pbind (array_copy Ys) (\<lambda>new_Ys.
     case lineVelocity of (speed, angle) \<Rightarrow>
     pbind (array_iadd new_Xs (of_int (py_int (speed * cos angle)))) (\<lambda>_.
     pbind (array_iadd new_Ys (of_int (py_int (speed * sin angle)))) (\<lambda>_.
     pbind (from_rand (random_accelerate lineVelocity maxLineAcceleration ''guassian''))
       (\<lambda>lineVelocity'.
     pbind (array_len Xs) (\<lambda>n.
     pbind (from_rand (np_shuffle [0..<n])) (\<lambda>shuffled.
     let chosen = slice_to (py_int (real n * nMovePointRatio)) shuffled in
     pbind (move_chosen_store chosen imageWidth imageHeight maxPiontMove boarderGap
              new_Xs new_Ys False) (\<lambda>new_velocity.
     pbind (if new_velocity then from_rand (get_random_velocity maxInitSpeed ''guassian'')
            else preturn lineVelocity') (\<lambda>lineVelocity''.
     preturn (new_Xs, new_Ys, lineVelocity''))))))))))"

text \<open>
  What a run of the loop on the store amounts to on values: the contents of the two
  working arrays, the flag and the generator, or the exception.
\<close>

definition loop_view ::
  "nat \<Rightarrow> nat \<Rightarrow> (error + bool) \<times> store \<times> rng \<Rightarrow> error + (real list \<times> real list \<times> bool) \<times> rng" where
  "loop_view new_Xs new_Ys run =
     (case run of (res, h, g) \<Rightarrow>
        case res of Inl e \<Rightarrow> Inl e
        | Inr new_velocity \<Rightarrow> Inr ((cells h new_Xs, cells h new_Ys, new_velocity), g))"

definition store_of :: "(error + 'a) \<times> store \<times> rng \<Rightarrow> store" where
  "store_of run = fst (snd run)"

text \<open>A store with two arrays, for examples.\<close>

definition two_arrays :: "real list \<Rightarrow> real list \<Rightarrow> store" where
  "two_arrays xs ys = \<lparr>cells = (\<lambda>a. if a = 0 then xs else if a = 1 then ys else []), next_addr = 2\<rparr>"

subsection \<open>Images\<close>

text \<open>
  A PIL image of one of the 8-bit modes: its mode string, its size and its pixels, row by
  row, each pixel the list of its band values (\<open>0\<close> to \<open>255\<close>; a mode \<^verbatim>\<open>'1'\<close> image
  stores \<open>0\<close> or \<open>255\<close>). \<^verbatim>\<open>im.size\<close> is \<open>(width, height)\<close>.
\<close>

record image =
  mode :: string
  width :: nat
  height :: nat
  pixels :: "nat list list list"

text \<open>
  The number of bands of a mode. The model covers the modes \<^verbatim>\<open>'1'\<close>, \<^verbatim>\<open>'L'\<close>,
  \<^verbatim>\<open>'LA'\<close>, \<^verbatim>\<open>'RGB'\<close> and \<^verbatim>\<open>'RGBA'\<close>; any other mode string is read as a
  four-band mode.
\<close>

definition getbands :: "string \<Rightarrow> nat" where
  "getbands m =
     (if m = ''1'' \<or> m = ''L'' then 1
      else if m = ''LA'' then 2
      else if m = ''RGB'' then 3
      else 4)"

definition wf_image :: "image \<Rightarrow> bool" where
  "wf_image im =
     (length (pixels im) = height im \<and>
      list_all (\<lambda>row. length row = width im \<and>
                  list_all (\<lambda>p. length p = getbands (mode im)) row) (pixels im))"

text \<open>\<^verbatim>\<open>Image.new(mode, size, color)\<close> rejects a negative width or height.\<close>

definition Image_new :: "string \<Rightarrow> int \<times> int \<Rightarrow> nat \<Rightarrow> error + image" where
  "Image_new m sz color =
     (case sz of (w, h) \<Rightarrow>
        if w < 0 \<or> h < 0 then Inl ValueError
        else Inr \<lparr>mode = m, width = nat w, height = nat h,
                  pixels = replicate (nat h) (replicate (nat w) (replicate (getbands m) color))\<rparr>)"

text \<open>
  \<^verbatim>\<open>im.histogram()\<close>: for every band, the number of pixels holding each of the 256
  values, the bands' histograms concatenated.
\<close>

definition histogram :: "image \<Rightarrow> nat list" where
  "histogram im =
     concat (map (\<lambda>b. map (\<lambda>v. length (filter (\<lambda>p. p ! b = v) (concat (pixels im))))
                         [0..<256])
                 [0..<getbands (mode im)])"

subsection \<open>Coverage ratio\<close>

text \<open>
  The quotient \<^verbatim>\<open>hist[0] / np.prod(mask.size)\<close> is a numpy float: a zero divisor gives
  \<^verbatim>\<open>nan\<close> (for \<open>0 / 0\<close>) or \<^verbatim>\<open>inf\<close> with a warning, not an exception.
\<close>

datatype np_float = Finite real | Inf | NaN

definition np_true_divide :: "nat \<Rightarrow> nat \<Rightarrow> np_float" where
  "np_true_divide a b =
     (if b = 0 then (if a = 0 then NaN else Inf) else Finite (real a / real b))"

definition get_masked_ratio :: "image \<Rightarrow> np_float" where
  "get_masked_ratio mask' =
     (let hist = histogram mask'
      in np_true_divide (hist ! 0) (width mask' * height mask'))"

subsection \<open>Random-walk mask\<close>

text \<open>\<^verbatim>\<open>random.randint(a, b)\<close> of the standard library draws from \<open>[a, b]\<close>, both ends included.\<close>

definition py_randint :: "int \<Rightarrow> int \<Rightarrow> int rand" where
  "py_randint a b g =
     (if b < a then Inl ValueError
      else Inr (a + int (naturals g (pos g) mod nat (b - a + 1)), tick g))"

text \<open>
  \<^verbatim>\<open>np.array\<close> of a list of integers is an integer array, but of the empty list it is
  an empty array of dtype \<^verbatim>\<open>float64\<close>.
\<close>

datatype dtype = Int64 | Float64

definition np_array :: "int list \<Rightarrow> dtype \<times> int list" where
  "np_array xs = (if xs = [] then (Float64, []) else (Int64, xs))"

text \<open>\<^verbatim>\<open>np.zeros((rows, cols))\<close> rejects a negative dimension.\<close>

definition np_zeros :: "int \<Rightarrow> int \<Rightarrow> error + int list list" where
  "np_zeros rows cols =
     (if rows < 0 \<or> cols < 0 then Inl ValueError
      else Inr (replicate (nat rows) (replicate (nat cols) 0)))"

text \<open>An index \<open>i\<close> into an axis of length \<open>n\<close>: negative indices count from the end.\<close>

definition axis_index :: "nat \<Rightarrow> int \<Rightarrow> error + nat" where
  "axis_index n i =
     (if 0 \<le> i \<and> i < int n then Inr (nat i)
      else if - int n \<le> i \<and> i < 0 then Inr (nat (i + int n))
      else Inl IndexError)"

fun assign_points :: "int list list \<Rightarrow> (int \<times> int) list \<Rightarrow> int \<Rightarrow> error + int list list" where
  "assign_points canvas [] v = Inr canvas"
| "assign_points canvas ((x, y) # ps) v =
     (case axis_index (length canvas) x of Inl e \<Rightarrow> Inl e | Inr r \<Rightarrow>
      case axis_index (length (canvas ! r)) y of Inl e \<Rightarrow> Inl e | Inr c \<Rightarrow>
        assign_points (canvas[r := (canvas ! r)[c := v]]) ps v)"

text \<open>
  The assignment \<^verbatim>\<open>canvas[xa, ya] = v\<close> with two index arrays: an index array that is
  not of integer type is refused with \<^verbatim>\<open>IndexError\<close>, and so are index arrays of
  different lengths, neither of length one (they do not broadcast), and an index out
  of bounds.
\<close>

definition setitem_arrays ::
  "int list list \<Rightarrow> dtype \<times> int list \<Rightarrow> dtype \<times> int list \<Rightarrow> int \<Rightarrow> error + int list list" where
  "setitem_arrays canvas xa ya v =
     (if fst xa \<noteq> Int64 \<or> fst ya \<noteq> Int64 then Inl IndexError
      else if length (snd xa) \<noteq> length (snd ya) \<and> length (snd xa) \<noteq> 1 \<and> length (snd ya) \<noteq> 1
        then Inl IndexError
      else assign_points canvas
             (zip (if length (snd xa) = 1 then replicate (length (snd ya)) (hd (snd xa)) else snd xa)
                  (if length (snd ya) = 1 then replicate (length (snd xa)) (hd (snd ya)) else snd ya))
             v)"

text \<open>
  \<^verbatim>\<open>Image.fromarray(a).convert('1')\<close> for an integer array: the values are clipped to
  \<open>[0, 255]\<close> on the way to mode \<^verbatim>\<open>'L'\<close> and then made bilevel. On the values \<open>0\<close>
  and \<open>255\<close>, the only ones the canvas holds, the bilevel conversion is the identity.
\<close>

definition fromarray_convert_1 :: "int list list \<Rightarrow> image" where
  "fromarray_convert_1 a =
     \<lparr>mode = ''1'', width = (case a of [] \<Rightarrow> 0 | row # _ \<Rightarrow> length row), height = length a,
      pixels = map (map (\<lambda>v. [if np_clip v 0 255 \<ge> 128 then 255 else 0])) a\<rparr>"

definition action_list :: "int list list" where
  "action_list = [[0, 1], [0, -1], [1, 0], [-1, 0]]"

fun walk ::
  "nat \<Rightarrow> int \<Rightarrow> int \<Rightarrow> int \<Rightarrow> int \<Rightarrow> int list \<Rightarrow> int list \<Rightarrow> (int list \<times> int list) rand" where
  "walk 0 imageWidth imageHeight x y x_list y_list = ret (x_list, y_list)"
| "walk (Suc n) imageWidth imageHeight x y x_list y_list =
     rbind (py_randint 0 (int (length action_list) - 1)) (\<lambda>r.
       let x' = np_clip (x + action_list ! nat r ! 0) 0 (imageHeight - 1);
           y' = np_clip (y + action_list ! nat r ! 1) 0 (imageWidth - 1)
       in walk n imageWidth imageHeight x' y' (x_list @ [x']) (y_list @ [y']))"

definition get_random_walk_mask :: "int \<Rightarrow> int \<Rightarrow> int option \<Rightarrow> image rand" where
  "get_random_walk_mask imageWidth imageHeight length' =
     rbind (lift (np_zeros imageHeight imageWidth)) (\<lambda>canvas.
     let len = (case length' of None \<Rightarrow> imageWidth * imageHeight | Some l \<Rightarrow> l) in
     rbind (py_randint 0 (imageHeight - 1)) (\<lambda>x.
     rbind (py_randint 0 (imageWidth - 1)) (\<lambda>y.
     rbind (walk (nat len) imageWidth imageHeight x y [] []) (\<lambda>(x_list, y_list).
     rbind (lift (setitem_arrays canvas (np_array x_list) (np_array y_list) 1)) (\<lambda>canvas'.
     ret (fromarray_convert_1 (map (map (\<lambda>v. v * 255)) canvas')))))))"

subsection \<open>Arrays and \<^verbatim>\<open>Stack\<close>\<close>

text \<open>
  A numpy array of any rank, as nested lists. \<open>shape\<close> reads the dimensions off the first
  elements; \<open>has_shape\<close> says that the nesting is rectangular, as every numpy array is.
\<close>

datatype ndarray = Scalar nat | Array "ndarray list"

fun shape :: "ndarray \<Rightarrow> nat list" where
  "shape (Scalar v) = []"
| "shape (Array []) = [0]"
| "shape (Array (x # xs)) = Suc (length xs) # shape x"

fun has_shape :: "nat list \<Rightarrow> ndarray \<Rightarrow> bool" where
  "has_shape [] (Scalar v) = True"
| "has_shape (n # ns) (Array xs) = (length xs = n \<and> list_all (has_shape ns) xs)"
| "has_shape [] (Array xs) = False"
| "has_shape (n # ns) (Scalar v) = False"

fun children :: "ndarray \<Rightarrow> ndarray list" where
  "children (Scalar v) = []"
| "children (Array xs) = xs"

text \<open>
  \<^verbatim>\<open>np.asarray(img)\<close>: height by width for a one-band image (booleans, here \<open>0\<close> and
  \<open>1\<close>, for mode \<^verbatim>\<open>'1'\<close>), height by width by bands otherwise.
\<close>

definition asarray :: "image \<Rightarrow> ndarray" where
  "asarray img =
     (if getbands (mode img) = 1 then
        Array (map (\<lambda>row. Array (map (\<lambda>p. Scalar (if mode img = ''1''
                                                       then (if p ! 0 = 0 then 0 else 1)
                                                       else p ! 0)) row)) (pixels img))
      else Array (map (\<lambda>row. Array (map (\<lambda>p. Array (map Scalar p)) row)) (pixels img)))"

text \<open>
  \<^verbatim>\<open>img.convert('L')\<close>: the one band of a mode \<^verbatim>\<open>'1'\<close>, \<^verbatim>\<open>'L'\<close> or \<^verbatim>\<open>'LA'\<close>
  image is kept, a colour pixel becomes its ITU-R 601-2 luma.
\<close>

definition convert_L :: "image \<Rightarrow> image" where
  "convert_L img =
     img\<lparr>mode := ''L'',
         pixels := map (map (\<lambda>p. if getbands (mode img) \<le> 2 then [p ! 0]
                                   else [(p ! 0 * 19595 + p ! 1 * 38470 + p ! 2 * 7471 + 32768)
                                           div 65536])) (pixels img)\<rparr>"

fun insert_axis :: "ndarray \<Rightarrow> nat \<Rightarrow> ndarray" where
  "insert_axis a 0 = Array [a]"
| "insert_axis (Array xs) (Suc n) = Array (map (\<lambda>x. insert_axis x n) xs)"
| "insert_axis (Scalar v) (Suc n) = Scalar v"

text \<open>\<^verbatim>\<open>np.expand_dims(a, axis)\<close> rejects an axis beyond the rank of the array.\<close>

definition np_expand_dims :: "ndarray \<Rightarrow> nat \<Rightarrow> error + ndarray" where
  "np_expand_dims a axis =
     (if axis > length (shape a) then Inl ValueError else Inr (insert_axis a axis))"

fun flip :: "ndarray \<Rightarrow> nat \<Rightarrow> ndarray" where
  "flip (Scalar v) n = Scalar v"
| "flip (Array xs) 0 = Array (rev xs)"
| "flip (Array xs) (Suc n) = Array (map (\<lambda>x. flip x n) xs)"

text \<open>The slice \<^verbatim>\<open>a[:, :, ::-1]\<close> needs an array of rank three at least.\<close>

definition reverse_axis_2 :: "ndarray \<Rightarrow> error + ndarray" where
  "reverse_axis_2 a = (if length (shape a) < 3 then Inl IndexError else Inr (flip a 2))"

fun stack_axis :: "ndarray list \<Rightarrow> nat \<Rightarrow> ndarray" where
  "stack_axis arrays 0 = Array arrays"
| "stack_axis arrays (Suc n) =
     Array (map (\<lambda>i. stack_axis (map (\<lambda>a. children a ! i) arrays) n)
                [0..<length (children (hd arrays))])"

text \<open>
  \<^verbatim>\<open>np.stack(arrays, axis)\<close> needs at least one array, needs all of them to have one
  shape, and puts the new axis at position \<open>axis\<close> of the result.
\<close>

definition np_stack :: "ndarray list \<Rightarrow> nat \<Rightarrow> error + ndarray" where
  "np_stack arrays axis =
     (if arrays = [] then Inl ValueError
      else if \<not> list_all (\<lambda>a. shape a = shape (hd arrays)) arrays then Inl ValueError
      else if axis > length (shape (hd arrays)) then Inl ValueError
      else Inr (stack_axis arrays axis))"

fun collect :: "('a \<Rightarrow> error + 'b) \<Rightarrow> 'a list \<Rightarrow> error + 'b list" where
  "collect f [] = Inr []"
| "collect f (x # xs) =
     (case f x of Inl e \<Rightarrow> Inl e | Inr y \<Rightarrow>
      case collect f xs of Inl e \<Rightarrow> Inl e | Inr ys \<Rightarrow> Inr (y # ys))"

text \<open>\<^verbatim>\<open>Stack(roll).__call__(img_group)\<close>; \<open>collect\<close> is the list comprehension.\<close>

definition Stack_call :: "bool \<Rightarrow> image list \<Rightarrow> error + ndarray" where
  "Stack_call roll img_group =
     (case img_group of [] \<Rightarrow> Inl IndexError
      | img0 # _ \<Rightarrow>
        let img_group' = (if mode img0 = ''1'' then map convert_L img_group else img_group);
            mode' = (if mode img0 = ''1'' then ''L'' else mode img0)
        in
        if mode' = ''L'' then
          (case collect (\<lambda>x. np_expand_dims (asarray x) 2) img_group' of
             Inl e \<Rightarrow> Inl e | Inr arrays \<Rightarrow> np_stack arrays 2)
        else if mode' = ''RGB'' then
          (if roll then
             (case collect (\<lambda>x. reverse_axis_2 (asarray x)) img_group' of
                Inl e \<Rightarrow> Inl e | Inr arrays \<Rightarrow> np_stack arrays 2)
           else np_stack (map asarray img_group') 2)
        else Inl (NotImplementedError (''Image mode '' @ mode')))"


subsection \<open>Stroke generator\<close>

text \<open>
  The loop \<^verbatim>\<open>for i in range(numVertex)\<close> of \<^verbatim>\<open>get_random_stroke_control_points\<close>; the
  state is the head position, the head velocity and the two lists of coordinates.
  \<^verbatim>\<open>boarderGap\<close> may be \<^verbatim>\<open>None\<close> here.
\<close>

fun stroke_loop ::
  "nat \<Rightarrow> int \<Rightarrow> int \<Rightarrow> real \<Rightarrow> real \<times> real \<Rightarrow> int option
     \<Rightarrow> real \<times> real \<times> real \<times> real \<times> real list \<times> real list
     \<Rightarrow> (real list \<times> real list) rand" where
  "stroke_loop 0 imageWidth imageHeight maxHeadSpeed maxHeadAcceleration boarderGap st =
     (case st of (startX, startY, speed, angle, Xs, Ys) \<Rightarrow> ret (Xs, Ys))"
| "stroke_loop (Suc n) imageWidth imageHeight maxHeadSpeed maxHeadAcceleration boarderGap st =
     (case st of (startX, startY, speed, angle, Xs, Ys) \<Rightarrow>
        rbind (random_accelerate (speed, angle) maxHeadAcceleration ''uniform'') (\<lambda>(speed1, angle').
          let speed' = np_clip speed1 0 maxHeadSpeed;
              nextX = startX + speed' * sin angle';
              nextY = startY + speed' * cos angle';
              nextX' = (case boarderGap of None \<Rightarrow> nextX
                        | Some b \<Rightarrow> np_clip nextX (of_int b) (of_int (imageWidth - b)));
              nextY' = (case boarderGap of None \<Rightarrow> nextY
                        | Some b \<Rightarrow> np_clip nextY (of_int b) (of_int (imageHeight - b)))
          in stroke_loop n imageWidth imageHeight maxHeadSpeed maxHeadAcceleration boarderGap
               (nextX', nextY', speed', angle', Xs @ [nextX'], Ys @ [nextY'])))"

text \<open>\<^verbatim>\<open>np.random.randint(n)\<close> with one argument draws from \<open>[0, n)\<close>.\<close>

definition get_random_stroke_control_points ::
  "int \<Rightarrow> int \<Rightarrow> int \<times> int \<Rightarrow> real \<Rightarrow> real \<times> real \<Rightarrow> int option \<Rightarrow> real
     \<Rightarrow> (real list \<times> real list \<times> velocity) rand" where
  "get_random_stroke_control_points imageWidth imageHeight nVertexBound maxHeadSpeed
     maxHeadAcceleration boarderGap maxInitSpeed =
     rbind (np_randint 0 imageWidth) (\<lambda>startX.
     rbind (np_randint 0 imageHeight) (\<lambda>startY.
     rbind (np_randint (fst nVertexBound) (snd nVertexBound)) (\<lambda>numVertex.
     rbind (random_uniform 0 (2 * pi)) (\<lambda>angle.
     rbind (random_uniform 0 maxHeadSpeed) (\<lambda>speed.
     rbind (stroke_loop (nat numVertex) imageWidth imageHeight maxHeadSpeed maxHeadAcceleration
              boarderGap
              (of_int startX, of_int startY, speed, angle, [of_int startX], [of_int startY]))
       (\<lambda>(Xs, Ys).
     rbind (get_random_velocity maxInitSpeed ''guassian'') (\<lambda>velocity.
     ret (Xs, Ys, velocity))))))))"

subsection \<open>Mask rasterizer\<close>

text \<open>
  The two drawing primitives of \<^verbatim>\<open>PIL.ImageDraw\<close> are parameters of the model:
  \<open>line im (x0, y0, x1, y1) fill width\<close> and \<open>ellipse im (x0, y0, x1, y1) fill\<close> return
  the image drawn on.
\<close>

record drawing =
  line :: "image \<Rightarrow> real \<times> real \<times> real \<times> real \<Rightarrow> nat \<Rightarrow> int \<Rightarrow> image"
  ellipse :: "image \<Rightarrow> real \<times> real \<times> real \<times> real \<Rightarrow> nat \<Rightarrow> image"

text \<open>The loop \<^verbatim>\<open>for i in range(1, len(Xs))\<close>, over the list of its indices.\<close>

fun draw_lines ::
  "drawing \<Rightarrow> image \<Rightarrow> real list \<Rightarrow> real list \<Rightarrow> int \<Rightarrow> nat \<Rightarrow> nat list \<Rightarrow> error + image" where
  "draw_lines D mask' Xs Ys brushWidth fill [] = Inr mask'"
| "draw_lines D mask' Xs Ys brushWidth fill (i # rest) =
     (if i - 1 \<ge> length Ys then Inl IndexError
      else if i \<ge> length Ys then Inl IndexError
      else draw_lines D
             (line D mask' (Xs ! (i - 1), Ys ! (i - 1), Xs ! i, Ys ! i) fill brushWidth)
             Xs Ys brushWidth fill rest)"

text \<open>
  The name \<^verbatim>\<open>draw\<close> is bound inside the first loop only: with fewer than two control
  points the first ellipse raises \<^verbatim>\<open>UnboundLocalError\<close>.
\<close>

definition draw_mask_by_control_points ::
  "drawing \<Rightarrow> image \<Rightarrow> real list \<Rightarrow> real list \<Rightarrow> int \<Rightarrow> nat \<Rightarrow> error + image" where
  "draw_mask_by_control_points D mask' Xs Ys brushWidth fill =
     (let radius = brushWidth div 2 - 1 in
      case draw_lines D mask' Xs Ys brushWidth fill [1..<length Xs] of
        Inl e \<Rightarrow> Inl e
      | Inr mask1 \<Rightarrow>
          if zip Xs Ys = [] then Inr mask1
          else if length Xs \<le> 1 then Inl UnboundLocalError
          else Inr (fold (\<lambda>(x, y) m.
                      ellipse D m (x - of_int radius, y - of_int radius,
                                   x + of_int radius, y + of_int radius) fill)
                    (zip Xs Ys) mask1))"

subsection \<open>Video mask sequence builder\<close>

text \<open>The keyword parameters of \<^verbatim>\<open>get_video_masks_by_moving_random_stroke\<close> and their defaults.\<close>

record settings =
  imageWidth :: int
  imageHeight :: int
  nStroke :: int
  nVertexBound :: "int \<times> int"
  maxHeadSpeed :: real
  maxHeadAcceleration :: "real \<times> real"
  brushWidthBound :: "int \<times> int"
  boarderGap :: int
  nMovePointRatio :: real
  maxPiontMove :: int
  maxLineAcceleration :: "real \<times> real"
  maxInitSpeed :: real

definition default_settings :: settings where
  "default_settings =
     \<lparr>imageWidth = 424, imageHeight = 240, nStroke = 3, nVertexBound = (5, 20),
      maxHeadSpeed = 15, maxHeadAcceleration = (15, 314 / 100), brushWidthBound = (30, 50),
      boarderGap = 50, nMovePointRatio = 1 / 2, maxPiontMove = 10,
      maxLineAcceleration = (5, 1 / 2), maxInitSpeed = 10\<rparr>"

type_synonym stroke = "real list \<times> real list \<times> velocity \<times> int"

text \<open>The loop \<^verbatim>\<open>for _ in range(nStroke)\<close> that creates the strokes and draws the first mask.\<close>

fun init_strokes ::
  "drawing \<Rightarrow> settings \<Rightarrow> nat \<Rightarrow> image \<Rightarrow> stroke list \<Rightarrow> (image \<times> stroke list) rand" where
  "init_strokes D P 0 mask' control_points_set = ret (mask', control_points_set)"
| "init_strokes D P (Suc n) mask' control_points_set =
     rbind (np_randint (fst (brushWidthBound P)) (snd (brushWidthBound P))) (\<lambda>brushWidth.
     rbind (get_random_stroke_control_points (imageWidth P) (imageHeight P) (nVertexBound P)
              (maxHeadSpeed P) (maxHeadAcceleration P) (Some (boarderGap P)) (maxInitSpeed P))
       (\<lambda>(Xs, Ys, velocity).
     rbind (lift (draw_mask_by_control_points D mask' Xs Ys brushWidth 255)) (\<lambda>mask''.
     init_strokes D P n mask'' (control_points_set @ [(Xs, Ys, velocity, brushWidth)]))))"

definition first_frame :: "drawing \<Rightarrow> settings \<Rightarrow> (image \<times> stroke list) rand" where
  "first_frame D P =
     rbind (lift (Image_new ''1'' (imageWidth P, imageHeight P) 0)) (\<lambda>mask'.
     init_strokes D P (nat (nStroke P)) mask' [])"

text \<open>The loop \<^verbatim>\<open>for j in range(len(control_points_set))\<close> that moves every stroke.\<close>

fun move_strokes :: "settings \<Rightarrow> stroke list \<Rightarrow> stroke list rand" where
  "move_strokes P [] = ret []"
| "move_strokes P (s # rest) =
     (case s of (Xs, Ys, velocity, brushWidth) \<Rightarrow>
        rbind (random_move_control_points Xs Ys (imageWidth P) (imageHeight P) velocity
                 (nMovePointRatio P) (maxPiontMove P) (maxLineAcceleration P) (boarderGap P)
                 (maxInitSpeed P)) (\<lambda>(new_Xs, new_Ys, velocity').
        rbind (move_strokes P rest) (\<lambda>rest'.
        ret ((new_Xs, new_Ys, velocity', brushWidth) # rest'))))"

fun draw_strokes :: "drawing \<Rightarrow> image \<Rightarrow> stroke list \<Rightarrow> error + image" where
  "draw_strokes D mask' [] = Inr mask'"
| "draw_strokes D mask' (s # rest) =
     (case s of (Xs, Ys, velocity, brushWidth) \<Rightarrow>
        case draw_mask_by_control_points D mask' Xs Ys brushWidth 255 of
          Inl e \<Rightarrow> Inl e
        | Inr mask'' \<Rightarrow> draw_strokes D mask'' rest)"

text \<open>The loop \<^verbatim>\<open>for _ in range(video_len - 1)\<close>: one animation step and one mask per round.\<close>

fun next_frames ::
  "drawing \<Rightarrow> settings \<Rightarrow> nat \<Rightarrow> stroke list \<Rightarrow> image list \<Rightarrow> image list rand" where
  "next_frames D P 0 control_points_set masks = ret masks"
| "next_frames D P (Suc n) control_points_set masks =
     rbind (lift (Image_new ''1'' (imageWidth P, imageHeight P) 0)) (\<lambda>mask'.
     rbind (move_strokes P control_points_set) (\<lambda>control_points_set'.
     rbind (lift (draw_strokes D mask' control_points_set')) (\<lambda>mask''.
     next_frames D P n control_points_set' (masks @ [mask'']))))"

definition get_video_masks_by_moving_random_stroke ::
  "drawing \<Rightarrow> int \<Rightarrow> settings \<Rightarrow> image list rand" where
  "get_video_masks_by_moving_random_stroke D video_len P =
     (if \<not> video_len \<ge> 1 then raise AssertionError
      else rbind (first_frame D P) (\<lambda>(mask', control_points_set).
           next_frames D P (nat (video_len - 1)) control_points_set [mask']))"

text \<open>
  Settings under which no library call of the builder is handed an empty range or a
  negative scale, and every stroke has two control points at least.
\<close>

definition valid_settings :: "settings \<Rightarrow> bool" where
  "valid_settings P =
     (1 \<le> imageWidth P \<and> 1 \<le> imageHeight P
      \<and> fst (brushWidthBound P) < snd (brushWidthBound P)
      \<and> 1 \<le> fst (nVertexBound P) \<and> fst (nVertexBound P) < snd (nVertexBound P)
      \<and> 0 \<le> maxInitSpeed P
      \<and> 0 \<le> fst (maxLineAcceleration P) \<and> 0 \<le> snd (maxLineAcceleration P)
      \<and> 1 \<le> maxPiontMove P)"

text \<open>A stroke the rasterizer accepts: as many ordinates as abscissae, two points at least.\<close>

definition stroke_ok :: "stroke \<Rightarrow> bool" where
  "stroke_ok s = (case s of (Xs, Ys, v, w) \<Rightarrow> length Xs = length Ys \<and> 2 \<le> length Xs)"

text \<open>A drawing backend for examples: a line leaves no trace, an ellipse inks the pixel at its centre.\<close>

definition dot_drawing :: drawing where
  "dot_drawing =
     \<lparr>line = (\<lambda>im box fill w. im),
      ellipse = (\<lambda>im box fill.
        case box of (x0, y0, x1, y1) \<Rightarrow>
          let c = nat (py_int ((x0 + x1) / 2)); r = nat (py_int ((y0 + y1) / 2))
          in if r < height im \<and> c < width im
             then im\<lparr>pixels := (pixels im)[r := (pixels im ! r)[c := [fill]]]\<rparr> else im)\<rparr>"

text \<open>\<open>returns m Q\<close>: from every state of the generator, \<open>m\<close> returns a value that satisfies \<open>Q\<close>.\<close>

definition returns :: "'a rand \<Rightarrow> ('a \<Rightarrow> bool) \<Rightarrow> bool" where
  "returns m Q = (\<forall>g. \<exists>x g'. m g = Inr (x, g') \<and> Q x)"

text \<open>Sample frames: a constant 4 by 4 grey frame and a constant 4 by 4 colour frame.\<close>

definition grey4 :: "nat \<Rightarrow> image" where
  "grey4 v = \<lparr>mode = ''L'', width = 4, height = 4, pixels = replicate 4 (replicate 4 [v])\<rparr>"

definition rgb4 :: "nat \<Rightarrow> nat \<Rightarrow> nat \<Rightarrow> image" where
  "rgb4 r g b =
     \<lparr>mode = ''RGB'', width = 4, height = 4, pixels = replicate 4 (replicate 4 [r, g, b])\<rparr>"

section \<open>Properties\<close>

subsection \<open>Velocity sampling and perturbation\<close>

text \<open>
  C5. With the uniform distribution the speed is not a draw over \<open>[0, maxSpeed]\<close>: at
  \<open>max_speed = 10\<close> and the raw draw \<open>1/2\<close> the code returns \<open>10 + (1 - 10) / 2 = 11/2\<close>,
  where \<open>r * maxSpeed\<close> would be \<open>5\<close>. The angle is \<open>2 * pi * r\<close> as claimed.
\<close>

theorem get_random_velocity_uniform_at_10:
  "get_random_velocity 10 ''uniform'' (const_rng (1/2) 0 0)
     = Inr ((11/2, pi), (const_rng (1/2) 0 0)\<lparr>pos := 2\<rparr>)"
  by (simp add: get_random_velocity_def rbind_def random_uniform_def ret_def tick_def
      const_rng_def)

lemma random_accelerate_value:
  "d = ''uniform'' \<or> (d = ''guassian'' \<and> 0 \<le> ds \<and> 0 \<le> da) \<Longrightarrow>
   random_accelerate (speed, angle) (ds, da) d g =
     Inr ((speed + (if d = ''uniform'' then - ds + (ds - - ds) * uniforms g (pos g)
                    else 0 + ds / 2 * normals g (pos g)),
           angle + (if d = ''uniform'' then - da + (da - - da) * uniforms g (Suc (pos g))
                    else 0 + da / 2 * normals g (Suc (pos g)))),
          tick (tick g))"
  by (auto simp add: random_accelerate_def rbind_def random_uniform_def random_normal_def
      ret_def tick_def)

lemma random_accelerate_unsupported:
  "(\<exists>msg. random_accelerate v a d g = Inl (NotImplementedError msg))
     \<longleftrightarrow> d \<noteq> ''uniform'' \<and> d \<noteq> ''guassian''"
  by (auto simp add: random_accelerate_def rbind_def random_uniform_def random_normal_def
      ret_def raise_def unsupported_def split: prod.splits)

lemma get_random_velocity_unsupported:
  "(\<exists>msg. get_random_velocity m d g = Inl (NotImplementedError msg))
     \<longleftrightarrow> d \<noteq> ''uniform'' \<and> d \<noteq> ''guassian''"
  by (auto simp add: get_random_velocity_def rbind_def random_uniform_def random_normal_def
      ret_def raise_def unsupported_def split: prod.splits)

lemma get_random_velocity_value:
  "d = ''uniform'' \<or> (d = ''guassian'' \<and> 0 \<le> m) \<Longrightarrow>
   get_random_velocity m d g =
     Inr ((if d = ''uniform'' then m + (1 - m) * uniforms g (pos g)
           else \<bar>0 + m / 2 * normals g (pos g)\<bar>,
           0 + (2 * pi - 0) * uniforms g (Suc (pos g))),
          tick (tick g))"
  by (auto simp add: get_random_velocity_def rbind_def random_uniform_def random_normal_def
      ret_def tick_def)

lemma get_random_velocity_guassian:
  "get_random_velocity m ''guassian'' g = Inr ((s, a), g') \<Longrightarrow> 0 \<le> s"
  by (auto simp add: get_random_velocity_def rbind_def random_uniform_def random_normal_def
      ret_def tick_def split: if_splits)

lemma get_random_velocity_uniform_nonneg:
  assumes "get_random_velocity m ''uniform'' g = Inr ((s, a), g')" "0 \<le> m" "unit_draws g"
  shows "0 \<le> s"
proof -
  let ?u = "uniforms g (pos g)"
  have u: "0 \<le> ?u" "?u < 1" using assms(3) by (auto simp: unit_draws_def)
  have "s = m + (1 - m) * ?u"
    using assms(1) by (auto simp add: get_random_velocity_def rbind_def random_uniform_def ret_def)
  also have "\<dots> = m * (1 - ?u) + ?u" by (simp add: algebra_simps)
  finally show ?thesis using u assms(2) by simp
qed

lemma random_accelerate_guassian_speed:
  "random_accelerate (speed, angle) (ds, da) ''guassian'' g = Inr ((s, a), g1) \<Longrightarrow>
   s = speed + ds / 2 * normals g (pos g)"
  by (auto simp add: random_accelerate_def rbind_def random_normal_def ret_def split: if_splits)

lemma move_speed:
  assumes "random_move_control_points Xs Ys W H (speed, angle) r m (ds, da) gap mi g
             = Inr ((xs, ys, (s, a)), g')"
  shows "0 \<le> s \<or> s = speed + ds / 2 * normals g (pos g)"
  using assms
  apply (simp add: random_move_control_points_def Let_def)
  apply (subst (asm) rbind_def)
  apply (simp split: sum.splits prod.splits)
  apply (subst (asm) rbind_def)
  apply (simp split: sum.splits prod.splits)
  apply (subst (asm) rbind_def)
  apply (simp split: sum.splits prod.splits)
  apply (subst (asm) rbind_def)
  apply (simp add: ret_def split: sum.splits prod.splits if_splits)
   apply (auto dest: get_random_velocity_guassian random_accelerate_guassian_speed)
  done

text \<open>
  C8 (amended). Both functions raise the unsupported-distribution error exactly when the
  name is neither \<^verbatim>\<open>'uniform'\<close> nor \<^verbatim>\<open>'guassian'\<close>, the spelling the source compares
  with. With \<^verbatim>\<open>'uniform'\<close>, and with \<^verbatim>\<open>'guassian'\<close> when the scales handed to
  \<^verbatim>\<open>np.random.normal\<close> are not negative, no error is raised and the result is the one
  written out: perturbation returns the speed and the angle plus their draws, unclamped.
\<close>

theorem distribution_errors:
  "((\<exists>msg. random_accelerate (speed, angle) (ds, da) d g = Inl (NotImplementedError msg))
      \<longleftrightarrow> d \<noteq> ''uniform'' \<and> d \<noteq> ''guassian'')
   \<and> ((\<exists>msg. get_random_velocity m d g = Inl (NotImplementedError msg))
      \<longleftrightarrow> d \<noteq> ''uniform'' \<and> d \<noteq> ''guassian'')
   \<and> (d = ''uniform'' \<or> (d = ''guassian'' \<and> 0 \<le> ds \<and> 0 \<le> da) \<longrightarrow>
        random_accelerate (speed, angle) (ds, da) d g =
          Inr ((speed + (if d = ''uniform'' then - ds + (ds - - ds) * uniforms g (pos g)
                         else 0 + ds / 2 * normals g (pos g)),
                angle + (if d = ''uniform'' then - da + (da - - da) * uniforms g (Suc (pos g))
                         else 0 + da / 2 * normals g (Suc (pos g)))),
               tick (tick g)))
   \<and> (d = ''uniform'' \<or> (d = ''guassian'' \<and> 0 \<le> m) \<longrightarrow>
        get_random_velocity m d g =
          Inr ((if d = ''uniform'' then m + (1 - m) * uniforms g (pos g)
                else \<bar>0 + m / 2 * normals g (pos g)\<bar>,
                0 + (2 * pi - 0) * uniforms g (Suc (pos g))),
               tick (tick g)))"
  using random_accelerate_unsupported [of "(speed, angle)" "(ds, da)" d g]
    get_random_velocity_unsupported [of m d g]
    random_accelerate_value [of d ds da speed angle g]
    get_random_velocity_value [of d m g]
  by blast

theorem distribution_errors_witness:
  "(\<exists>msg. random_accelerate (1, 0) (5, 1/2) ''gaussian'' (const_rng 0 1 0)
             = Inl (NotImplementedError msg))
   \<and> random_accelerate (1, 0) (5, 1/2) ''guassian'' (const_rng 0 1 0)
       = Inr ((7/2, 1/4), tick (tick (const_rng 0 1 0)))
   \<and> get_random_velocity 10 ''guassian'' (const_rng 0 1 0)
       = Inr ((5, 0), tick (tick (const_rng 0 1 0)))"
  using distribution_errors [of 1 0 5 "1/2" "''gaussian''" "const_rng 0 1 0" 10]
    distribution_errors [of 1 0 5 "1/2" "''guassian''" "const_rng 0 1 0" 10]
  by (simp add: const_rng_def)

text \<open>
  C8 as stated fails: the name \<^verbatim>\<open>'gaussian'\<close> is rejected by both functions, and a
  supported name with a negative scale raises \<^verbatim>\<open>ValueError\<close> from numpy.
\<close>

theorem gaussian_spelling_rejected:
  "random_accelerate (1, 0) (5, 1/2) ''gaussian'' (const_rng 0 0 0)
     = Inl (unsupported ''gaussian'')
   \<and> get_random_velocity 10 ''gaussian'' (const_rng 0 0 0) = Inl (unsupported ''gaussian'')
   \<and> random_accelerate (1, 0) (-1, 1/2) ''guassian'' (const_rng 0 0 0) = Inl ValueError"
  by (simp add: random_accelerate_def get_random_velocity_def rbind_def raise_def
      random_normal_def)

text \<open>
  C2 (amended). The speed is non-negative right after sampling by
  \<^verbatim>\<open>get_random_velocity\<close> (always for \<^verbatim>\<open>'guassian'\<close>, the distribution used at stroke
  creation and at a reset; for \<^verbatim>\<open>'uniform'\<close> when \<open>max_speed\<close> is not negative and the
  raw draws lie in \<open>[0, 1)\<close>). After an animation step the whole-line speed is either
  such a fresh sample or exactly the old speed plus the signed gaussian draw, unclamped.
\<close>

theorem speed_after_sampling_and_step:
  "(get_random_velocity m d g = Inr ((s, a), g') \<longrightarrow>
      d = ''guassian'' \<or> (d = ''uniform'' \<and> 0 \<le> m \<and> unit_draws g) \<longrightarrow> 0 \<le> s)
   \<and> (random_move_control_points Xs Ys W H (speed, angle) r mv (ds, da) gap mi g
         = Inr ((xs, ys, (s', a')), g'') \<longrightarrow>
       0 \<le> s' \<or> s' = speed + ds / 2 * normals g (pos g))"
  using get_random_velocity_guassian [of m g s a g']
    get_random_velocity_uniform_nonneg [of m g s a g']
    move_speed [of Xs Ys W H speed angle r mv ds da gap mi g xs ys s' a' g'']
  by blast

theorem speed_after_sampling_and_step_witness:
  "get_random_velocity 10 ''guassian'' (const_rng 0 (-1) 0)
     = Inr ((5, 0), (const_rng 0 (-1) 0)\<lparr>pos := 2\<rparr>)
   \<and> (0::real) \<le> 5
   \<and> random_move_control_points [100, 100] [100, 100] 424 240 (1, 0) (1/2) 10 (5, 1/2) 50 10
         (const_rng 0 1 0)
       = Inr (([101, 91], [100, 90], (7/2, 1/4)), (const_rng 0 1 0)\<lparr>pos := 5\<rparr>)
   \<and> (0::real) \<le> 7/2"
proof -
  have a: "get_random_velocity 10 ''guassian'' (const_rng 0 (-1) 0)
     = Inr ((5, 0), (const_rng 0 (-1) 0)\<lparr>pos := 2\<rparr>)"
    by (simp add: get_random_velocity_def rbind_def random_uniform_def random_normal_def
        ret_def tick_def const_rng_def)
  have b: "random_move_control_points [100, 100] [100, 100] 424 240 (1, 0) (1/2) 10 (5, 1/2) 50 10
         (const_rng 0 1 0)
       = Inr (([101, 91], [100, 90], (7/2, 1/4)), (const_rng 0 1 0)\<lparr>pos := 5\<rparr>)"
    by (simp add: random_move_control_points_def random_accelerate_def rbind_def
        random_normal_def ret_def tick_def const_rng_def np_shuffle_def swap_def slice_to_def
        py_int_def np_randint_def np_clip_def upt_rec)
  from a have "(0::real) \<le> 5"
    using speed_after_sampling_and_step [of 10 "''guassian''" "const_rng 0 (-1) 0" 5 0
        "(const_rng 0 (-1) 0)\<lparr>pos := 2\<rparr>"]
    by blast
  with a b show ?thesis by simp
qed

text \<open>
  C2 as stated fails: one animation step from the velocity \<open>(1, 0)\<close> with the standard
  normal draw \<open>-1\<close> returns the whole-line speed \<open>1 + (5 / 2) * (-1) = -3/2\<close>.
\<close>

theorem line_speed_negative_after_step:
  "random_move_control_points [100, 100] [100, 100] 424 240 (1, 0) (1/2) 10 (5, 1/2) 50 10
     (const_rng 0 (-1) 0)
     = Inr (([101, 91], [100, 90], (- 3/2, - 1/4)), (const_rng 0 (-1) 0)\<lparr>pos := 5\<rparr>)
   \<and> \<not> (0::real) \<le> - 3/2"
  by (simp add: random_move_control_points_def random_accelerate_def rbind_def
      random_normal_def ret_def tick_def const_rng_def np_shuffle_def swap_def slice_to_def
      py_int_def np_randint_def np_clip_def upt_rec)

subsection \<open>One animation step on the control points\<close>

text \<open>
  What a step does to the points: a point chosen for jitter ends inside the border gap,
  a point not chosen is translated by the whole-line displacement and nothing else.
\<close>

lemma np_clip_between:
  "a_min \<le> a_max \<Longrightarrow> a_min \<le> np_clip x a_min a_max \<and> np_clip x a_min a_max \<le> a_max"
  by (auto simp: np_clip_def)

lemma move_chosen_clamps:
  assumes "move_chosen chosen W H m gap (Xs, Ys, b) g = Inr ((Xs', Ys', b'), g')"
    and "gap \<le> W - gap" and "gap \<le> H - gap"
  shows "length Xs' = length Xs \<and> length Ys' = length Ys
         \<and> (\<forall>i < length Xs. i \<in> set chosen \<or> of_int gap \<le> Xs ! i \<and> Xs ! i \<le> of_int (W - gap)
               \<longrightarrow> of_int gap \<le> Xs' ! i \<and> Xs' ! i \<le> of_int (W - gap))
         \<and> (\<forall>i < length Ys. i \<in> set chosen \<or> of_int gap \<le> Ys ! i \<and> Ys ! i \<le> of_int (H - gap)
               \<longrightarrow> of_int gap \<le> Ys' ! i \<and> Ys' ! i \<le> of_int (H - gap))
         \<and> (\<forall>i < length Xs. i \<notin> set chosen \<longrightarrow> Xs' ! i = Xs ! i)
         \<and> (\<forall>i < length Ys. i \<notin> set chosen \<longrightarrow> Ys' ! i = Ys ! i)"
  using assms(1)
proof (induction chosen arbitrary: Xs Ys b g)
  case Nil
  then show ?case by (simp add: ret_def)
next
  case (Cons j chosen)
  have cx: "real_of_int gap \<le> np_clip x (of_int gap) (of_int (W - gap))
            \<and> np_clip x (of_int gap) (of_int (W - gap)) \<le> real_of_int (W - gap)" for x
    using assms(2) by (intro np_clip_between) simp
  have cy: "real_of_int gap \<le> np_clip y (of_int gap) (of_int (H - gap))
            \<and> np_clip y (of_int gap) (of_int (H - gap)) \<le> real_of_int (H - gap)" for y
    using assms(3) by (intro np_clip_between) simp
  from Cons.prems obtain dx dy and g2 :: rng where
    j: "j < length Xs" "j < length Ys" and
    rest: "move_chosen chosen W H m gap
             (Xs[j := np_clip (Xs ! j + of_int dx) (of_int gap) (of_int (W - gap))],
              Ys[j := np_clip (Ys ! j + of_int dy) (of_int gap) (of_int (H - gap))],
              if \<not> b \<and> (Xs ! j + of_int dx > of_int W \<or> Xs ! j + of_int dx < 0
                          \<or> Ys ! j + of_int dy > of_int H \<or> Ys ! j + of_int dy < 0)
              then True else b) g2
           = Inr ((Xs', Ys', b'), g')"
    by (auto simp: rbind_def raise_def Let_def split: if_splits sum.splits)
  note IH = Cons.IH [OF rest]
  show ?case
    using IH j cx cy
    by (auto simp: nth_list_update split: if_splits)
qed

lemma animation_step_points:
  assumes "random_move_control_points Xs Ys W H (speed, angle) r m mla gap mis g
             = Inr ((Xs', Ys', v'), g')"
    and "gap \<le> W - gap" and "gap \<le> H - gap"
  shows "\<exists>chosen. length Xs' = length Xs \<and> length Ys' = length Ys
           \<and> (\<forall>i < length Xs.
                 if i \<in> set chosen
                 then of_int gap \<le> Xs' ! i \<and> Xs' ! i \<le> of_int (W - gap)
                 else Xs' ! i = Xs ! i + of_int (py_int (speed * cos angle)))
           \<and> (\<forall>i < length Ys.
                 if i \<in> set chosen
                 then of_int gap \<le> Ys' ! i \<and> Ys' ! i \<le> of_int (H - gap)
                 else Ys' ! i = Ys ! i + of_int (py_int (speed * sin angle)))"
proof -
  let ?new_Xs = "map (\<lambda>x. x + of_int (py_int (speed * cos angle))) Xs"
  let ?new_Ys = "map (\<lambda>y. y + of_int (py_int (speed * sin angle))) Ys"
  from assms(1) obtain chosen b' and g2 g3 :: rng where
    loop: "move_chosen chosen W H m gap (?new_Xs, ?new_Ys, False) g2 = Inr ((Xs', Ys', b'), g3)"
    by (auto simp: random_move_control_points_def rbind_def ret_def Let_def
        split: sum.splits prod.splits if_splits)
  from move_chosen_clamps [OF loop assms(2,3)]
  have "length Xs' = length Xs \<and> length Ys' = length Ys
        \<and> (\<forall>i < length Xs.
              if i \<in> set chosen
              then of_int gap \<le> Xs' ! i \<and> Xs' ! i \<le> of_int (W - gap)
              else Xs' ! i = Xs ! i + of_int (py_int (speed * cos angle)))
        \<and> (\<forall>i < length Ys.
              if i \<in> set chosen
              then of_int gap \<le> Ys' ! i \<and> Ys' ! i \<le> of_int (H - gap)
              else Ys' ! i = Ys ! i + of_int (py_int (speed * sin angle)))"
    by auto
  then show ?thesis by blast
qed

text \<open>
  C1. One animation step on a stroke with a control point at \<open>x = 374 = 424 - 50\<close> and
  the whole-line velocity \<open>(5, 0)\<close>: index 1 is the point chosen for jitter and is clamped,
  index 0 is only translated and ends at \<open>x = 379\<close>, beyond \<open>imageWidth - boarderGap\<close>.
\<close>

theorem unselected_point_leaves_gap:
  "random_move_control_points [374, 100] [100, 100] 424 240 (5, 0) (1/2) 10 (5, 1/2) 50 10
     (const_rng 0 0 0)
     = Inr (([379, 95], [100, 90], (5, 0)), (const_rng 0 0 0)\<lparr>pos := 5\<rparr>)
   \<and> \<not> (379::real) \<le> 424 - 50"
  by (simp add: random_move_control_points_def random_accelerate_def rbind_def
      random_normal_def ret_def tick_def const_rng_def np_shuffle_def swap_def slice_to_def
      py_int_def np_randint_def np_clip_def upt_rec)

subsection \<open>Coverage ratio and random-walk mask\<close>

lemma getbands_pos: "0 < getbands m"
  by (simp add: getbands_def)

lemma histogram_0:
  "histogram im ! 0 = length (filter (\<lambda>p. p ! 0 = 0) (concat (pixels im)))"
proof -
  let ?count = "\<lambda>b v. length (filter (\<lambda>p. p ! b = v) (concat (pixels im)))"
  let ?band = "\<lambda>b. map (?count b) [0..<256]"
  obtain k where k: "getbands (mode im) = Suc k"
    using getbands_pos [of "mode im"] by (cases "getbands (mode im)") auto
  have "[0..<Suc k] = 0 # [Suc 0..<Suc k]"
    by (rule upt_conv_Cons) simp
  then have "histogram im = ?band 0 @ concat (map ?band [Suc 0..<Suc k])"
    by (simp only: histogram_def k list.map concat.simps)
  moreover have "(?band 0 @ concat (map ?band [Suc 0..<Suc k])) ! 0 = ?band 0 ! 0"
    by (simp only: nth_append length_map length_upt) simp
  moreover have "?band 0 ! 0 = ?count 0 0"
    by (simp only: nth_map length_upt nth_upt) simp
  ultimately show ?thesis by simp
qed

lemma length_concat_rows:
  "list_all (\<lambda>row. length row = w) rows \<Longrightarrow> length (concat rows) = length rows * w"
  by (induction rows) auto

lemma wf_image_pixel_count:
  assumes "wf_image im"
  shows "length (concat (pixels im)) = width im * height im"
proof -
  have "list_all (\<lambda>row. length row = width im) (pixels im)"
    using assms by (auto simp: wf_image_def list_all_iff)
  from length_concat_rows [OF this] assms show ?thesis
    by (simp add: wf_image_def mult.commute)
qed

text \<open>
  C4 (amended). For a well-formed, non-empty mask the ratio is the number of pixels whose
  (first) band is \<open>0\<close> divided by \<open>width * height\<close>; it lies in \<open>[0, 1]\<close>; it is
  \<open>1\<close> when every pixel is zero and \<open>0\<close> when no pixel is zero.
\<close>

theorem masked_ratio:
  assumes "wf_image im" and "0 < width im * height im"
  shows "\<exists>r. get_masked_ratio im = Finite r
           \<and> r = real (length (filter (\<lambda>p. p ! 0 = 0) (concat (pixels im))))
                   / real (width im * height im)
           \<and> 0 \<le> r \<and> r \<le> 1
           \<and> ((\<forall>p \<in> set (concat (pixels im)). p ! 0 = 0) \<longrightarrow> r = 1)
           \<and> ((\<forall>p \<in> set (concat (pixels im)). p ! 0 \<noteq> 0) \<longrightarrow> r = 0)"
proof -
  let ?ps = "concat (pixels im)"
  let ?z = "filter (\<lambda>p. p ! 0 = 0) ?ps"
  let ?n = "width im * height im"
  let ?r = "real (length ?z) / real ?n"
  have n: "length ?ps = ?n" by (rule wf_image_pixel_count [OF assms(1)])
  have val: "get_masked_ratio im = Finite ?r"
    using assms(2) by (simp add: get_masked_ratio_def np_true_divide_def histogram_0)
  have le: "length ?z \<le> ?n" using length_filter_le [of _ ?ps] n by simp
  have lo: "0 \<le> ?r" by simp
  have hi: "?r \<le> 1"
  proof -
    have "real (length ?z) \<le> real ?n" using le by (rule iffD2 [OF of_nat_le_iff])
    moreover have "0 < real ?n" using assms(2) by (rule iffD2 [OF of_nat_0_less_iff])
    ultimately show ?thesis by (simp only: divide_le_eq_1_pos)
  qed
  have all0: "?r = 1" if "\<forall>p \<in> set ?ps. p ! 0 = 0"
  proof -
    from that have "?z = ?ps" by (simp add: filter_id_conv)
    then show ?thesis using n assms(2) by simp
  qed
  have none0: "?r = 0" if "\<forall>p \<in> set ?ps. p ! 0 \<noteq> 0"
  proof -
    from that have "?z = []" by (simp add: filter_empty_conv)
    then show ?thesis by simp
  qed
  from val lo hi all0 none0 show ?thesis by blast
qed

theorem masked_ratio_witness:
  "wf_image \<lparr>mode = ''1'', width = 2, height = 1, pixels = [[[0], [255]]]\<rparr>
   \<and> get_masked_ratio \<lparr>mode = ''1'', width = 2, height = 1, pixels = [[[0], [255]]]\<rparr>
       = Finite (1 / 2)"
  using masked_ratio [of "\<lparr>mode = ''1'', width = 2, height = 1, pixels = [[[0], [255]]]\<rparr>"]
  by (auto simp add: wf_image_def getbands_def)

text \<open>
  C4 as stated fails: the all-zero canvas has ratio \<open>1\<close>, not \<open>0\<close>, the fully filled
  canvas has ratio \<open>0\<close>, not \<open>1\<close>, and the empty image gives \<^verbatim>\<open>nan\<close>.
\<close>

theorem masked_ratio_of_zero_canvas:
  "get_masked_ratio \<lparr>mode = ''1'', width = 2, height = 2, pixels = [[[0], [0]], [[0], [0]]]\<rparr>
     = Finite 1
   \<and> get_masked_ratio
       \<lparr>mode = ''1'', width = 2, height = 2, pixels = [[[255], [255]], [[255], [255]]]\<rparr>
     = Finite 0
   \<and> get_masked_ratio \<lparr>mode = ''1'', width = 0, height = 0, pixels = []\<rparr> = NaN"
  by (simp add: get_masked_ratio_def np_true_divide_def histogram_0)

text \<open>
  C9. With \<^verbatim>\<open>length=0\<close> the loop appends nothing, \<^verbatim>\<open>np.array([])\<close> is a
  \<^verbatim>\<open>float64\<close> array, and the indexed assignment raises \<^verbatim>\<open>IndexError\<close>: no mask is
  returned, whatever the draws.
\<close>

theorem random_walk_length_0_raises:
  "get_random_walk_mask 10 10 (Some 0) g = Inl IndexError"
  by (simp add: get_random_walk_mask_def np_zeros_def rbind_def lift_def py_randint_def ret_def
      setitem_arrays_def np_array_def)

subsection \<open>Stacking frames\<close>

lemma has_shape_shape: "has_shape s a \<Longrightarrow> 0 \<notin> set s \<Longrightarrow> shape a = s"
proof (induction s a rule: has_shape.induct)
  case (2 n ns xs)
  then obtain x xs' where xs: "xs = x # xs'" by (cases xs) auto
  with 2 have "shape x = ns" by auto
  with 2 xs show ?case by auto
qed auto

lemma has_shape_ArrayD:
  "has_shape (k # s) a \<Longrightarrow> \<exists>xs. a = Array xs \<and> length xs = k \<and> list_all (has_shape s) xs"
  by (cases a) auto

lemma has_shape_insert_axis:
  "has_shape s a \<Longrightarrow> n \<le> length s \<Longrightarrow> has_shape (take n s @ 1 # drop n s) (insert_axis a n)"
proof (induction n arbitrary: a s)
  case 0
  then show ?case by simp
next
  case (Suc n)
  then obtain k s' where s: "s = k # s'" by (cases s) auto
  with Suc.prems obtain xs where a: "a = Array xs" "length xs = k" "list_all (has_shape s') xs"
    using has_shape_ArrayD by blast
  have "list_all (has_shape (take n s' @ 1 # drop n s')) (map (\<lambda>x. insert_axis x n) xs)"
    using a(3) Suc.IH [of s'] Suc.prems(2) s by (auto simp: list_all_iff)
  with a s show ?case by simp
qed

lemma has_shape_flip: "has_shape s a \<Longrightarrow> has_shape s (flip a n)"
proof (induction n arbitrary: a s)
  case 0
  then show ?case by (cases a; cases s) (auto simp: list_all_iff)
next
  case (Suc n)
  show ?case
  proof (cases a)
    case (Scalar v)
    with Suc.prems show ?thesis by simp
  next
    case (Array xs)
    with Suc.prems obtain k s' where s: "s = k # s'" by (cases s) auto
    with Suc.prems Array Suc.IH [of s'] show ?thesis by (auto simp: list_all_iff)
  qed
qed

lemma has_shape_stack_axis:
  "arrays \<noteq> [] \<Longrightarrow> list_all (has_shape s) arrays \<Longrightarrow> n \<le> length s \<Longrightarrow>
   has_shape (take n s @ length arrays # drop n s) (stack_axis arrays n)"
proof (induction n arbitrary: arrays s)
  case 0
  then show ?case by simp
next
  case (Suc n)
  then obtain k s' where s: "s = k # s'" by (cases s) auto
  have each: "\<exists>xs. a = Array xs \<and> length xs = k \<and> list_all (has_shape s') xs"
    if "a \<in> set arrays" for a
    using that Suc.prems(2) s has_shape_ArrayD by (auto simp: list_all_iff)
  have hd: "length (children (hd arrays)) = k"
    using each [of "hd arrays"] Suc.prems(1) by auto
  have sub: "list_all (has_shape s') (map (\<lambda>a. children a ! i) arrays)" if "i < k" for i
    using each that by (fastforce simp: list_all_iff)
  have "has_shape (take n s' @ length arrays # drop n s')
          (stack_axis (map (\<lambda>a. children a ! i) arrays) n)" if "i < k" for i
    using Suc.IH [of "map (\<lambda>a. children a ! i) arrays" s'] sub [OF that] Suc.prems s by simp
  then show ?case using hd s by (simp add: list_all_iff)
qed

lemma children_flip_Suc: "children (flip a (Suc m)) = map (\<lambda>x. flip x m) (children a)"
  by (cases a) auto

lemma stack_axis_flip:
  "arrays \<noteq> [] \<Longrightarrow> list_all (has_shape s) arrays \<Longrightarrow> n \<le> m \<Longrightarrow> n \<le> length s \<Longrightarrow>
   stack_axis (map (\<lambda>a. flip a m) arrays) n = flip (stack_axis arrays n) (Suc m)"
proof (induction n arbitrary: arrays s m)
  case 0
  then show ?case by simp
next
  case (Suc n)
  then obtain k s' where s: "s = k # s'" by (cases s) auto
  from Suc.prems obtain m' where m: "m = Suc m'" by (cases m) auto
  have each: "\<exists>xs. a = Array xs \<and> length xs = k \<and> list_all (has_shape s') xs"
    if "a \<in> set arrays" for a
    using that Suc.prems(2) s has_shape_ArrayD by (auto simp: list_all_iff)
  have hd1: "length (children (hd arrays)) = k"
    using each [of "hd arrays"] Suc.prems(1) by auto
  have hd2: "length (children (hd (map (\<lambda>a. flip a m) arrays))) = k"
    using hd1 Suc.prems(1) by (simp add: hd_map m children_flip_Suc)
  have sub: "list_all (has_shape s') (map (\<lambda>a. children a ! i) arrays)" if "i < k" for i
    using each that by (fastforce simp: list_all_iff)
  have inner: "map (\<lambda>a. children a ! i) (map (\<lambda>a. flip a m) arrays)
                 = map (\<lambda>a. flip a m') (map (\<lambda>a. children a ! i) arrays)" if "i < k" for i
    using each that by (fastforce simp: m children_flip_Suc)
  have step: "stack_axis (map (\<lambda>a. children a ! i) (map (\<lambda>a. flip a m) arrays)) n
          = flip (stack_axis (map (\<lambda>a. children a ! i) arrays) n) m" if "i < k" for i
  proof -
    have ne: "map (\<lambda>a. children a ! i) arrays \<noteq> []" using Suc.prems(1) by simp
    have le: "n \<le> m'" "n \<le> length s'" using Suc.prems s m by auto
    have "stack_axis (map (\<lambda>a. flip a m') (map (\<lambda>a. children a ! i) arrays)) n
            = flip (stack_axis (map (\<lambda>a. children a ! i) arrays) n) (Suc m')"
      by (rule Suc.IH [OF ne sub [OF that] le])
    then show ?thesis unfolding inner [OF that] unfolding m .
  qed
  have eq: "map (\<lambda>i. stack_axis (map (\<lambda>a. children a ! i) (map (\<lambda>a. flip a m) arrays)) n) [0..<k]
          = map (\<lambda>i. flip (stack_axis (map (\<lambda>a. children a ! i) arrays) n) m) [0..<k]"
    by (rule map_cong [OF refl], rule step) simp
  have "stack_axis (map (\<lambda>a. flip a m) arrays) (Suc n)
          = Array (map (\<lambda>i. stack_axis (map (\<lambda>a. children a ! i) (map (\<lambda>a. flip a m) arrays)) n)
                     [0..<k])"
    by (simp only: stack_axis.simps hd2)
  also have "\<dots> = Array (map (\<lambda>i. flip (stack_axis (map (\<lambda>a. children a ! i) arrays) n) m) [0..<k])"
    by (simp only: eq)
  also have "\<dots> = flip (stack_axis arrays (Suc n)) (Suc m)"
    by (simp only: stack_axis.simps hd1 flip.simps map_map comp_def)
  finally show ?case .
qed

lemma collect_map: "(\<And>x. x \<in> set xs \<Longrightarrow> f x = Inr (g x)) \<Longrightarrow> collect f xs = Inr (map g xs)"
  by (induction xs) auto

lemma asarray_one_band:
  assumes "wf_image img" "getbands (mode img) = 1"
  shows "has_shape [height img, width img] (asarray img)"
  using assms by (auto simp: wf_image_def asarray_def list_all_iff)

lemma asarray_bands:
  assumes "wf_image img" "getbands (mode img) \<noteq> 1"
  shows "has_shape [height img, width img, getbands (mode img)] (asarray img)"
  using assms by (auto simp: wf_image_def asarray_def list_all_iff)

lemma wf_convert_L:
  "wf_image img \<Longrightarrow>
   wf_image (convert_L img) \<and> mode (convert_L img) = ''L''
     \<and> width (convert_L img) = width img \<and> height (convert_L img) = height img"
  by (auto simp: wf_image_def convert_L_def getbands_def list_all_iff)

lemma np_stack_shape:
  assumes "arrays \<noteq> []" "list_all (has_shape s) arrays" "0 \<notin> set s" "n \<le> length s"
  shows "np_stack arrays n = Inr (stack_axis arrays n)"
    and "shape (stack_axis arrays n) = take n s @ length arrays # drop n s"
proof -
  have sh: "shape a = s" if "a \<in> set arrays" for a
    using that assms(2,3) has_shape_shape by (auto simp: list_all_iff)
  then have "shape (hd arrays) = s" using assms(1) by simp
  with sh assms show "np_stack arrays n = Inr (stack_axis arrays n)"
    by (simp add: np_stack_def list_all_iff)
  have "0 \<notin> set (take n s @ length arrays # drop n s)"
    using assms(1,3) by (auto dest: in_set_takeD in_set_dropD)
  with has_shape_stack_axis [OF assms(1,2,4)]
  show "shape (stack_axis arrays n) = take n s @ length arrays # drop n s"
    by (rule has_shape_shape)
qed

lemma Stack_one_band:
  assumes ne: "img_group \<noteq> []"
    and all: "\<And>img. img \<in> set img_group \<Longrightarrow>
                wf_image img \<and> mode img = ''L'' \<and> width img = w \<and> height img = h"
    and pos: "0 < w" "0 < h"
  shows "collect (\<lambda>x. np_expand_dims (asarray x) 2) img_group
           = Inr (map (\<lambda>x. insert_axis (asarray x) 2) img_group)"
    and "np_stack (map (\<lambda>x. insert_axis (asarray x) 2) img_group) 2
           = Inr (stack_axis (map (\<lambda>x. insert_axis (asarray x) 2) img_group) 2)"
    and "shape (stack_axis (map (\<lambda>x. insert_axis (asarray x) 2) img_group) 2)
           = [h, w, length img_group, 1]"
proof -
  have a: "has_shape [h, w] (asarray x)" if "x \<in> set img_group" for x
    using asarray_one_band [of x] all [OF that] by (simp add: getbands_def)
  have "shape (asarray x) = [h, w]" if "x \<in> set img_group" for x
    using has_shape_shape [OF a [OF that]] pos by simp
  then have "np_expand_dims (asarray x) 2 = Inr (insert_axis (asarray x) 2)"
    if "x \<in> set img_group" for x
    using that by (simp add: np_expand_dims_def)
  then show "collect (\<lambda>x. np_expand_dims (asarray x) 2) img_group
           = Inr (map (\<lambda>x. insert_axis (asarray x) 2) img_group)"
    by (rule collect_map)
  have "has_shape [h, w, 1] (insert_axis (asarray x) 2)" if "x \<in> set img_group" for x
    using has_shape_insert_axis [OF a [OF that], of 2] by simp
  then have b: "list_all (has_shape [h, w, 1]) (map (\<lambda>x. insert_axis (asarray x) 2) img_group)"
    by (simp add: list_all_iff)
  have c: "map (\<lambda>x. insert_axis (asarray x) 2) img_group \<noteq> []" using ne by simp
  have d: "0 \<notin> set [h, w, 1]" using pos by simp
  show "np_stack (map (\<lambda>x. insert_axis (asarray x) 2) img_group) 2
           = Inr (stack_axis (map (\<lambda>x. insert_axis (asarray x) 2) img_group) 2)"
    by (rule np_stack_shape(1) [OF c b d]) simp
  show "shape (stack_axis (map (\<lambda>x. insert_axis (asarray x) 2) img_group) 2)
           = [h, w, length img_group, 1]"
    using np_stack_shape(2) [OF c b d, of 2] by simp
qed

lemma Stack_RGB:
  assumes ne: "img_group \<noteq> []"
    and all: "\<And>img. img \<in> set img_group \<Longrightarrow>
                wf_image img \<and> mode img = ''RGB'' \<and> width img = w \<and> height img = h"
    and pos: "0 < w" "0 < h"
  shows "np_stack (map asarray img_group) 2 = Inr (stack_axis (map asarray img_group) 2)"
    and "shape (stack_axis (map asarray img_group) 2) = [h, w, length img_group, 3]"
    and "collect (\<lambda>x. reverse_axis_2 (asarray x)) img_group
           = Inr (map (\<lambda>a. flip a 2) (map asarray img_group))"
    and "np_stack (map (\<lambda>a. flip a 2) (map asarray img_group)) 2
           = Inr (flip (stack_axis (map asarray img_group) 2) 3)"
proof -
  have a: "has_shape [h, w, 3] (asarray x)" if "x \<in> set img_group" for x
    using asarray_bands [of x] all [OF that] by (simp add: getbands_def)
  then have b: "list_all (has_shape [h, w, 3]) (map asarray img_group)"
    by (simp add: list_all_iff)
  have c: "map asarray img_group \<noteq> []" using ne by simp
  have d: "0 \<notin> set [h, w, 3]" using pos by simp
  show "np_stack (map asarray img_group) 2 = Inr (stack_axis (map asarray img_group) 2)"
    by (rule np_stack_shape(1) [OF c b d]) simp
  show "shape (stack_axis (map asarray img_group) 2) = [h, w, length img_group, 3]"
    using np_stack_shape(2) [OF c b d, of 2] by simp
  have "shape (asarray x) = [h, w, 3]" if "x \<in> set img_group" for x
    using has_shape_shape [OF a [OF that]] pos by simp
  then have "reverse_axis_2 (asarray x) = Inr (flip (asarray x) 2)" if "x \<in> set img_group" for x
    using that by (simp add: reverse_axis_2_def)
  then have "collect (\<lambda>x. reverse_axis_2 (asarray x)) img_group
           = Inr (map (\<lambda>x. flip (asarray x) 2) img_group)"
    by (rule collect_map)
  then show "collect (\<lambda>x. reverse_axis_2 (asarray x)) img_group
           = Inr (map (\<lambda>a. flip a 2) (map asarray img_group))"
    by (simp add: comp_def)
  have e: "list_all (has_shape [h, w, 3]) (map (\<lambda>a. flip a 2) (map asarray img_group))"
    using a has_shape_flip by (simp add: list_all_iff)
  have f: "map (\<lambda>a. flip a 2) (map asarray img_group) \<noteq> []" using ne by simp
  have "np_stack (map (\<lambda>a. flip a 2) (map asarray img_group)) 2
          = Inr (stack_axis (map (\<lambda>a. flip a 2) (map asarray img_group)) 2)"
    by (rule np_stack_shape(1) [OF f e d]) simp
  also have "stack_axis (map (\<lambda>a. flip a 2) (map asarray img_group)) 2
          = flip (stack_axis (map asarray img_group) 2) (Suc 2)"
    by (rule stack_axis_flip [OF c b]) simp_all
  finally show "np_stack (map (\<lambda>a. flip a 2) (map asarray img_group)) 2
           = Inr (flip (stack_axis (map asarray img_group) 2) 3)"
    by (simp add: eval_nat_numeral)
qed

text \<open>
  C6 (amended). For a non-empty group of well-formed frames of one mode and one size
  \<open>w\<close> by \<open>h\<close>: single-channel frames (mode \<^verbatim>\<open>'L'\<close> or \<^verbatim>\<open>'1'\<close>) stack to an
  array of shape height, width, time, channel, that is \<open>[h, w, n, 1]\<close>, the time axis at
  position 2 and the channel axis last; colour frames stack to \<open>[h, w, n, 3]\<close>, and
  \<^verbatim>\<open>roll=True\<close> gives the \<^verbatim>\<open>roll=False\<close> array with the channel axis reversed.
\<close>

theorem Stack_layout:
  assumes "img_group \<noteq> []"
    and "\<forall>img \<in> set img_group.
           wf_image img \<and> mode img = m \<and> width img = w \<and> height img = h"
    and "0 < w" and "0 < h"
  shows "(m = ''L'' \<or> m = ''1'' \<longrightarrow>
            (\<exists>arr. Stack_call roll img_group = Inr arr
                  \<and> shape arr = [h, w, length img_group, 1]))
       \<and> (m = ''RGB'' \<longrightarrow>
            (\<exists>arr. Stack_call False img_group = Inr arr
                  \<and> shape arr = [h, w, length img_group, 3]
                  \<and> Stack_call True img_group = Inr (flip arr 3)))"
proof (intro conjI impI)
  obtain img0 rest where g: "img_group = img0 # rest" using assms(1) by (cases img_group) auto
  have m0: "mode img0 = m" using assms(2) g by simp
  {
    assume m: "m = ''L'' \<or> m = ''1''"
    define grp where "grp = (if m = ''1'' then map convert_L img_group else img_group)"
    have ne: "grp \<noteq> []" using assms(1) by (simp add: grp_def)
    have len: "length grp = length img_group" by (simp add: grp_def)
    have all: "wf_image img \<and> mode img = ''L'' \<and> width img = w \<and> height img = h"
      if "img \<in> set grp" for img
    proof (cases "m = ''1''")
      case True
      with that obtain x where "x \<in> set img_group" "img = convert_L x"
        by (auto simp: grp_def)
      with assms(2) wf_convert_L [of x] show ?thesis by simp
    next
      case False
      with that m assms(2) show ?thesis by (simp add: grp_def)
    qed
    note S = Stack_one_band [OF ne all assms(3,4)]
    have "Stack_call roll img_group
            = Inr (stack_axis (map (\<lambda>x. insert_axis (asarray x) 2) grp) 2)"
      using m S(1,2) by (auto simp add: Stack_call_def g m0 grp_def)
    with S(3) len
    show "\<exists>arr. Stack_call roll img_group = Inr arr \<and> shape arr = [h, w, length img_group, 1]"
      by simp
  }
  {
    assume m: "m = ''RGB''"
    have all: "wf_image img \<and> mode img = ''RGB'' \<and> width img = w \<and> height img = h"
      if "img \<in> set img_group" for img
      using that assms(2) m by auto
    note S = Stack_RGB [OF assms(1) all assms(3,4)]
    have "Stack_call False img_group = Inr (stack_axis (map asarray img_group) 2)"
      using S(1) by (simp add: Stack_call_def g m0 m)
    moreover have "Stack_call True img_group
                     = Inr (flip (stack_axis (map asarray img_group) 2) 3)"
      using S(3,4) by (simp add: Stack_call_def g m0 m)
    ultimately
    show "\<exists>arr. Stack_call False img_group = Inr arr
               \<and> shape arr = [h, w, length img_group, 3]
               \<and> Stack_call True img_group = Inr (flip arr 3)"
      using S(2) by simp
  }
qed

theorem Stack_layout_witness:
  "map_sum id shape (Stack_call False [grey4 0, grey4 255]) = Inr [4, 4, 2, 1]
   \<and> map_sum id shape (Stack_call False [rgb4 1 2 3, rgb4 4 5 6]) = Inr [4, 4, 2, 3]
   \<and> map_sum id (\<lambda>arr. flip arr 3) (Stack_call False [rgb4 1 2 3, rgb4 4 5 6])
       = Stack_call True [rgb4 1 2 3, rgb4 4 5 6]"
proof -
  have g: "\<forall>img \<in> set [grey4 0, grey4 255].
             wf_image img \<and> mode img = ''L'' \<and> width img = 4 \<and> height img = 4"
    by (simp add: grey4_def wf_image_def getbands_def list_all_iff)
  have c: "\<forall>img \<in> set [rgb4 1 2 3, rgb4 4 5 6].
             wf_image img \<and> mode img = ''RGB'' \<and> width img = 4 \<and> height img = 4"
    by (simp add: rgb4_def wf_image_def getbands_def list_all_iff)
  from Stack_layout [OF _ g, of False] Stack_layout [OF _ c, of False]
  show ?thesis by auto
qed

text \<open>
  C6 as stated fails: two single-channel 4 by 4 frames stack to the shape \<open>4, 4, 2, 1\<close>,
  not \<open>4, 4, 1, 2\<close>: time is not the trailing axis.
\<close>

theorem Stack_grey_shape_is_not_4412:
  "map_sum id shape (Stack_call False [grey4 0, grey4 255]) = Inr [4, 4, 2, 1]
   \<and> [4, 4, 2, 1] \<noteq> [4, 4, 1, 2 :: nat]"
  by code_simp

subsection \<open>Video mask sequence\<close>

lemma returnsI: "(\<And>g. \<exists>x g'. m g = Inr (x, g') \<and> Q x) \<Longrightarrow> returns m Q"
  by (simp add: returns_def)

lemma returnsD: "returns m Q \<Longrightarrow> \<exists>x g'. m g = Inr (x, g') \<and> Q x"
  by (simp add: returns_def)

lemma returns_ret: "Q x \<Longrightarrow> returns (ret x) Q"
  by (simp add: returns_def ret_def)

lemma returns_rbind:
  assumes "returns m P" and "\<And>x. P x \<Longrightarrow> returns (f x) Q"
  shows "returns (rbind m f) Q"
proof (rule returnsI)
  fix g
  from returnsD [OF assms(1)] obtain x g1 where m: "m g = Inr (x, g1)" and "P x" by blast
  from returnsD [OF assms(2) [OF \<open>P x\<close>]] obtain y g2 where "f x g1 = Inr (y, g2)" "Q y"
    by blast
  with m show "\<exists>y g'. rbind m f g = Inr (y, g') \<and> Q y" by (simp add: rbind_def)
qed

lemma returns_weaken: "returns m P \<Longrightarrow> (\<And>x. P x \<Longrightarrow> Q x) \<Longrightarrow> returns m Q"
  by (auto simp: returns_def) blast

lemma returns_lift: "r = Inr x \<Longrightarrow> Q x \<Longrightarrow> returns (lift r) Q"
  by (simp add: returns_def lift_def)

lemma returns_rbind_lift: "r = Inr x \<Longrightarrow> returns (f x) Q \<Longrightarrow> returns (rbind (lift r) f) Q"
  by (simp add: returns_def rbind_def lift_def)

lemma returns_rbind_ret: "returns (f x) Q \<Longrightarrow> returns (rbind (ret x) f) Q"
  by (simp add: returns_def rbind_def ret_def)

lemma returns_np_randint:
  "low < high \<Longrightarrow> returns (np_randint low high) (\<lambda>k. low \<le> k \<and> k < high)"
proof (rule returnsI)
  fix g :: rng
  assume lt: "low < high"
  let ?r = "int (naturals g (pos g) mod nat (high - low))"
  have "0 \<le> ?r" by simp
  moreover have "?r < high - low"
    using lt by (simp add: zmod_int nat_less_iff) 
  ultimately show "\<exists>x g'. np_randint low high g = Inr (x, g') \<and> low \<le> x \<and> x < high"
    using lt by (simp add: np_randint_def)
qed

lemma returns_random_uniform: "returns (random_uniform low high) (\<lambda>_. True)"
  by (simp add: returns_def random_uniform_def)

lemma returns_random_accelerate_uniform:
  "returns (random_accelerate v a ''uniform'') (\<lambda>_. True)"
  by (cases v; cases a)
     (simp add: returns_def random_accelerate_def rbind_def random_uniform_def ret_def)

lemma returns_random_accelerate_guassian:
  "0 \<le> fst a \<Longrightarrow> 0 \<le> snd a \<Longrightarrow> returns (random_accelerate v a ''guassian'') (\<lambda>_. True)"
  by (cases v; cases a)
     (simp add: returns_def random_accelerate_def rbind_def random_normal_def ret_def)

lemma returns_get_random_velocity_guassian:
  "0 \<le> m \<Longrightarrow> returns (get_random_velocity m ''guassian'') (\<lambda>_. True)"
proof (rule returnsI)
  fix g :: rng
  assume "0 \<le> m"
  then have "\<exists>v. get_random_velocity m ''guassian'' g = Inr (v, tick (tick g))"
    using get_random_velocity_value [of "''guassian''" m g] by (intro exI) simp
  then show "\<exists>x g'. get_random_velocity m ''guassian'' g = Inr (x, g') \<and> True" by blast
qed

lemma returns_stroke_loop:
  "returns (stroke_loop n W H mhs mha gap (sx, sy, sp, an, Xs, Ys))
     (\<lambda>(Xs', Ys'). length Xs' = length Xs + n \<and> length Ys' = length Ys + n)"
proof (induction n arbitrary: sx sy sp an Xs Ys)
  case 0
  show ?case by (simp add: returns_ret)
next
  case (Suc n)
  show ?case
    unfolding stroke_loop.simps prod.case
  proof (rule returns_rbind [OF returns_random_accelerate_uniform])
    fix v :: velocity
    obtain s a where v: "v = (s, a)" by (cases v)
    show "returns
           (case v of (speed1, angle') \<Rightarrow>
              let speed' = np_clip speed1 0 mhs;
                  nextX = sx + speed' * sin angle';
                  nextY = sy + speed' * cos angle';
                  nextX' = (case gap of None \<Rightarrow> nextX
                            | Some b \<Rightarrow> np_clip nextX (of_int b) (of_int (W - b)));
                  nextY' = (case gap of None \<Rightarrow> nextY
                            | Some b \<Rightarrow> np_clip nextY (of_int b) (of_int (H - b)))
              in stroke_loop n W H mhs mha gap
                   (nextX', nextY', speed', angle', Xs @ [nextX'], Ys @ [nextY']))
           (\<lambda>(Xs', Ys'). length Xs' = length Xs + Suc n \<and> length Ys' = length Ys + Suc n)"
      unfolding v prod.case Let_def
      by (rule returns_weaken [OF Suc.IH]) auto
  qed
qed

lemma stroke_ok_simp [simp]:
  "stroke_ok (Xs, Ys, v, w) = (length Xs = length Ys \<and> 2 \<le> length Xs)"
  by (simp add: stroke_ok_def)

lemma returns_get_random_stroke_control_points:
  assumes "1 \<le> W" "1 \<le> H" "1 \<le> fst nvb" "fst nvb < snd nvb" "0 \<le> mis"
  shows "returns (get_random_stroke_control_points W H nvb mhs mha gap mis)
           (\<lambda>(Xs, Ys, v). length Xs = length Ys \<and> 2 \<le> length Xs)"
  unfolding get_random_stroke_control_points_def
  apply (intro returns_rbind [OF returns_np_randint] returns_rbind [OF returns_random_uniform])
  subgoal using assms by simp
  subgoal using assms by simp
  subgoal using assms by simp
  subgoal for startX startY numVertex angle speed
    apply (rule returns_rbind [OF returns_stroke_loop])
    apply clarsimp
    apply (rule returns_rbind [OF returns_get_random_velocity_guassian [OF assms(5)]])
    apply (rule returns_ret)
    using assms(3) by simp
  done

lemma draw_lines_ok:
  "\<forall>i \<in> set is. 1 \<le> i \<and> i < length Ys \<Longrightarrow>
   \<exists>m. draw_lines D mask' Xs Ys w fill is = Inr m"
  by (induction "is" arbitrary: mask') auto

lemma draw_mask_ok:
  assumes "length Xs = length Ys" "2 \<le> length Xs"
  shows "\<exists>m. draw_mask_by_control_points D mask' Xs Ys w fill = Inr m"
proof -
  obtain m where "draw_lines D mask' Xs Ys w fill [1..<length Xs] = Inr m"
    using draw_lines_ok [of "[1..<length Xs]" Ys D mask' Xs w fill] assms by auto
  with assms show ?thesis by (simp add: draw_mask_by_control_points_def Let_def)
qed

lemma set_swap_subset: "i < length xs \<Longrightarrow> j < length xs \<Longrightarrow> set (swap i j xs) \<subseteq> set xs"
proof -
  assume i: "i < length xs" and j: "j < length xs"
  have "set (xs[i := xs ! j]) \<subseteq> insert (xs ! j) (set xs)" by (rule set_update_subset_insert)
  then have a: "set (xs[i := xs ! j]) \<subseteq> set xs" using j by auto
  have "set (xs[i := xs ! j, j := xs ! i]) \<subseteq> insert (xs ! i) (set (xs[i := xs ! j]))"
    by (rule set_update_subset_insert)
  with a i show ?thesis by (auto simp: swap_def)
qed

lemma length_swap: "length (swap i j xs) = length xs"
  by (simp add: swap_def)

lemma shuffle_from_subset:
  "k < length x \<Longrightarrow> set (fst (shuffle_from k x g)) \<subseteq> set x"
proof (induction k arbitrary: x g)
  case 0
  show ?case by simp
next
  case (Suc k)
  let ?j = "naturals g (pos g) mod Suc (Suc k)"
  have "?j < Suc (Suc k)" by simp
  with Suc.prems have j: "?j < length x" by linarith
  have "set (fst (shuffle_from k (swap (Suc k) ?j x) (tick g))) \<subseteq> set (swap (Suc k) ?j x)"
    by (rule Suc.IH) (use Suc.prems in \<open>simp add: length_swap\<close>)
  also have "\<dots> \<subseteq> set x" by (rule set_swap_subset [OF Suc.prems j])
  finally show ?case by simp
qed

lemma returns_np_shuffle_upt:
  "returns (np_shuffle [0..<n]) (\<lambda>ys. \<forall>i \<in> set ys. i < n)"
proof (rule returnsI)
  fix g :: rng
  have "set (fst (shuffle_from (n - 1) [0..<n] g)) \<subseteq> set [0..<n]"
  proof (cases n)
    case 0
    then show ?thesis by simp
  next
    case (Suc m)
    then show ?thesis using shuffle_from_subset [of "n - 1" "[0..<n]" g] by simp
  qed
  then show "\<exists>x g'. np_shuffle [0..<n] g = Inr (x, g') \<and> (\<forall>i \<in> set x. i < n)"
    by (cases "shuffle_from (n - 1) [0..<n] g") (auto simp: np_shuffle_def)
qed

lemma set_slice_to: "set (slice_to k xs) \<subseteq> set xs"
  by (auto simp: slice_to_def dest: in_set_takeD)

lemma returns_move_chosen:
  "\<forall>i \<in> set chosen. i < length Xs \<Longrightarrow> length Xs = length Ys \<Longrightarrow> 1 \<le> m \<Longrightarrow>
   returns (move_chosen chosen W H m gap (Xs, Ys, b))
     (\<lambda>(Xs', Ys', b'). length Xs' = length Xs \<and> length Ys' = length Ys)"
proof (induction chosen arbitrary: Xs Ys b)
  case Nil
  show ?case by (simp add: returns_ret)
next
  case (Cons i chosen)
  have lt: "- m < m" using Cons.prems(3) by simp
  have i: "\<not> length Xs \<le> i" "\<not> length Ys \<le> i" using Cons.prems by auto
  show ?case
    unfolding move_chosen.simps prod.case Let_def
    apply (simp only: i if_False)
    apply (rule returns_rbind [OF returns_np_randint [OF lt]])
    apply (rule returns_rbind [OF returns_np_randint [OF lt]])
    apply (rule returns_weaken)
     apply (rule Cons.IH)
    using Cons.prems by auto
qed

lemma returns_random_move_control_points:
  assumes "length Xs = length Ys" "1 \<le> m" "0 \<le> fst mla" "0 \<le> snd mla" "0 \<le> mis"
  shows "returns (random_move_control_points Xs Ys W H v r m mla gap mis)
           (\<lambda>(Xs', Ys', v'). length Xs' = length Xs \<and> length Ys' = length Ys)"
proof -
  obtain speed angle where v: "v = (speed, angle)" by (cases v)
  show ?thesis
    unfolding random_move_control_points_def v prod.case Let_def
    apply (rule returns_rbind [OF returns_random_accelerate_guassian [OF assms(3,4)]])
    apply (rule returns_rbind [OF returns_np_shuffle_upt])
    apply (rule returns_rbind [where P = "\<lambda>(Xs', Ys', b'). length Xs' = length Xs \<and> length Ys' = length Ys"])
     apply (rule returns_weaken)
      apply (rule returns_move_chosen)
    subgoal using set_slice_to by fastforce
    subgoal using assms(1) by simp
    subgoal using assms(2) by simp
    subgoal by auto
    apply clarsimp
    apply (intro conjI impI)
     apply (rule returns_rbind [OF returns_get_random_velocity_guassian [OF assms(5)]])
     apply (simp add: returns_ret)
    apply (rule returns_rbind_ret)
    apply (simp add: returns_ret)
    done
qed

lemma returns_move_strokes:
  assumes "1 \<le> maxPiontMove P" "0 \<le> fst (maxLineAcceleration P)"
    "0 \<le> snd (maxLineAcceleration P)" "0 \<le> maxInitSpeed P"
  shows "list_all stroke_ok cps \<Longrightarrow> returns (move_strokes P cps) (list_all stroke_ok)"
proof (induction cps)
  case Nil
  show ?case by (simp add: returns_ret)
next
  case (Cons s cps)
  obtain Xs Ys v w where s: "s = (Xs, Ys, v, w)" by (cases s)
  from Cons.prems have ok: "length Xs = length Ys" "2 \<le> length Xs" and rest: "list_all stroke_ok cps"
    by (auto simp: s)
  show ?case
    unfolding move_strokes.simps s prod.case
    apply (rule returns_rbind [OF returns_random_move_control_points [OF ok(1) assms]])
    apply clarsimp
    apply (rule returns_rbind [OF Cons.IH [OF rest]])
    apply (rule returns_ret)
    using ok by simp
qed

lemma draw_strokes_ok:
  "list_all stroke_ok cps \<Longrightarrow> \<exists>m. draw_strokes D mask' cps = Inr m"
proof (induction cps arbitrary: mask')
  case Nil
  show ?case by simp
next
  case (Cons s cps)
  obtain Xs Ys v w where s: "s = (Xs, Ys, v, w)" by (cases s)
  from Cons.prems have ok: "length Xs = length Ys" "2 \<le> length Xs" and rest: "list_all stroke_ok cps"
    by (auto simp: s)
  from draw_mask_ok [OF ok] obtain m1 where "draw_mask_by_control_points D mask' Xs Ys w 255 = Inr m1"
    by blast
  with Cons.IH [OF rest, of m1] show ?case by (simp add: s)
qed

lemma Image_new_ok: "0 \<le> w \<Longrightarrow> 0 \<le> h \<Longrightarrow> \<exists>im. Image_new m (w, h) c = Inr im"
  by (simp add: Image_new_def)

lemma returns_init_strokes:
  assumes "valid_settings P"
  shows "list_all stroke_ok cps \<Longrightarrow>
         returns (init_strokes D P n mask' cps) (\<lambda>(m, cps'). list_all stroke_ok cps')"
proof (induction n arbitrary: mask' cps)
  case 0
  then show ?case by (simp add: returns_ret)
next
  case (Suc n)
  from assms have v: "fst (brushWidthBound P) < snd (brushWidthBound P)"
    "1 \<le> imageWidth P" "1 \<le> imageHeight P" "1 \<le> fst (nVertexBound P)"
    "fst (nVertexBound P) < snd (nVertexBound P)" "0 \<le> maxInitSpeed P"
    by (auto simp: valid_settings_def)
  show ?case
    unfolding init_strokes.simps
    apply (rule returns_rbind [OF returns_np_randint [OF v(1)]])
    apply (rule returns_rbind [OF returns_get_random_stroke_control_points [OF v(2-6)]])
    apply clarsimp
    subgoal for brushWidth Xs Ys speed angle
      using draw_mask_ok [of Xs Ys D mask' brushWidth 255]
      apply clarsimp
      apply (rule returns_rbind_lift [OF refl])
      apply (rule Suc.IH)
      using Suc.prems by simp
    done
qed

lemma returns_next_frames:
  assumes "valid_settings P"
  shows "list_all stroke_ok cps \<Longrightarrow>
         returns (next_frames D P n cps masks) (\<lambda>ms. length ms = length masks + n)"
proof (induction n arbitrary: cps masks)
  case 0
  show ?case by (simp add: returns_ret)
next
  case (Suc n)
  from assms have v: "1 \<le> maxPiontMove P" "0 \<le> fst (maxLineAcceleration P)"
    "0 \<le> snd (maxLineAcceleration P)" "0 \<le> maxInitSpeed P"
    and sz: "0 \<le> imageWidth P" "0 \<le> imageHeight P"
    by (auto simp: valid_settings_def)
  from Image_new_ok [OF sz] obtain im where im: "Image_new ''1'' (imageWidth P, imageHeight P) 0 = Inr im"
    by blast
  show ?case
    unfolding next_frames.simps
    apply (rule returns_rbind_lift [OF im])
    apply (rule returns_rbind [OF returns_move_strokes [OF v Suc.prems]])
    subgoal for cps'
      using draw_strokes_ok [of cps' D im]
      apply clarsimp
      apply (rule returns_rbind_lift [OF refl])
      apply (rule returns_weaken)
       apply (rule Suc.IH)
       apply assumption
      by simp
    done
qed

lemma returns_first_frame:
  assumes "valid_settings P"
  shows "returns (first_frame D P) (\<lambda>(m, cps). list_all stroke_ok cps)"
proof -
  from assms have sz: "0 \<le> imageWidth P" "0 \<le> imageHeight P"
    by (auto simp: valid_settings_def)
  from Image_new_ok [OF sz] obtain im where im: "Image_new ''1'' (imageWidth P, imageHeight P) 0 = Inr im"
    by blast
  show ?thesis
    unfolding first_frame_def
    apply (rule returns_rbind_lift [OF im])
    apply (rule returns_init_strokes [OF assms])
    by simp
qed

text \<open>
  C7. For every \<open>video_len < 1\<close> the call fails on its assertion, whatever the settings,
  the drawing backend and the generator: no sequence is returned, and the failure comes
  before the canvas is made (with a negative width, which \<^verbatim>\<open>Image.new\<close> refuses, the
  assertion still is the error) and before any stroke is drawn from the generator.
\<close>

theorem video_len_below_1_rejected:
  "video_len < 1 \<Longrightarrow>
   get_video_masks_by_moving_random_stroke D video_len P g = Inl AssertionError"
  by (simp add: get_video_masks_by_moving_random_stroke_def raise_def)

theorem video_len_below_1_rejected_witness:
  "(0::int) < 1
   \<and> get_video_masks_by_moving_random_stroke dot_drawing 0 default_settings (const_rng 0 0 0)
       = Inl AssertionError
   \<and> get_video_masks_by_moving_random_stroke dot_drawing 0 (default_settings\<lparr>imageWidth := - 1\<rparr>)
         (const_rng 0 0 0)
       = Inl AssertionError
   \<and> get_video_masks_by_moving_random_stroke dot_drawing 1 (default_settings\<lparr>imageWidth := - 1\<rparr>)
         (const_rng 0 0 0)
       = Inl ValueError"
proof -
  have "get_video_masks_by_moving_random_stroke dot_drawing 1
          (default_settings\<lparr>imageWidth := - 1\<rparr>) (const_rng 0 0 0) = Inl ValueError"
    by (simp add: get_video_masks_by_moving_random_stroke_def first_frame_def rbind_def lift_def
        Image_new_def default_settings_def)
  with video_len_below_1_rejected [of 0 dot_drawing default_settings "const_rng 0 0 0"]
    video_len_below_1_rejected [of 0 dot_drawing "default_settings\<lparr>imageWidth := - 1\<rparr>"
      "const_rng 0 0 0"]
  show ?thesis by simp
qed

lemma next_frames_length:
  "next_frames D P n cps masks g = Inr (ms, g') \<Longrightarrow> length ms = length masks + n"
proof (induction n arbitrary: cps masks g)
  case 0
  then show ?case by (simp add: ret_def)
next
  case (Suc n)
  from Suc.prems obtain cps' mask'' and g2 :: rng where
    "next_frames D P n cps' (masks @ [mask'']) g2 = Inr (ms, g')"
    by (auto simp: rbind_def lift_def split: sum.splits)
  from Suc.IH [OF this] show ?case by simp
qed

text \<open>
  C3 (amended). For every \<open>video_len \<ge> 1\<close>, all settings and every state of the generator:
  whenever the call returns, it returns a list of exactly \<open>video_len\<close> masks, and for
  \<open>video_len = 1\<close> the list is the first frame's mask alone, the generator left where the
  first frame left it, so no animation step has drawn from it. Under valid settings (the
  defaults among them) the call does return.
\<close>

theorem mask_sequence_length:
  assumes "1 \<le> video_len"
  shows "(\<forall>masks g'.
            get_video_masks_by_moving_random_stroke D video_len P g = Inr (masks, g') \<longrightarrow>
              length masks = nat video_len
              \<and> (video_len = 1 \<longrightarrow>
                   (\<exists>mask0 control_points_set.
                      first_frame D P g = Inr ((mask0, control_points_set), g')
                      \<and> masks = [mask0])))
         \<and> (valid_settings P \<longrightarrow>
              (\<exists>masks g'. get_video_masks_by_moving_random_stroke D video_len P g
                             = Inr (masks, g')))"
proof (intro conjI allI impI)
  fix masks g'
  assume run: "get_video_masks_by_moving_random_stroke D video_len P g = Inr (masks, g')"
  then obtain mask0 cps and g1 :: rng where
    ff: "first_frame D P g = Inr ((mask0, cps), g1)" and
    nf: "next_frames D P (nat (video_len - 1)) cps [mask0] g1 = Inr (masks, g')"
    using assms
    by (auto simp: get_video_masks_by_moving_random_stroke_def rbind_def split: sum.splits)
  from next_frames_length [OF nf] assms show "length masks = nat video_len" by simp
  {
    assume "video_len = 1"
    with nf have "g' = g1 \<and> masks = [mask0]" by (simp add: ret_def)
    with ff show "\<exists>mask0 control_points_set.
                    first_frame D P g = Inr ((mask0, control_points_set), g') \<and> masks = [mask0]"
      by auto
  }
next
  assume v: "valid_settings P"
  from returnsD [OF returns_first_frame [OF v], of D g]
  obtain mask0 cps g1 where ff: "first_frame D P g = Inr ((mask0, cps), g1)"
    and ok: "list_all stroke_ok cps"
    by auto
  from returnsD [OF returns_next_frames [OF v ok], of D "nat (video_len - 1)" "[mask0]" g1]
  obtain masks g2 where "next_frames D P (nat (video_len - 1)) cps [mask0] g1 = Inr (masks, g2)"
    by auto
  with ff assms
  have "get_video_masks_by_moving_random_stroke D video_len P g = Inr (masks, g2)"
    by (simp add: get_video_masks_by_moving_random_stroke_def rbind_def)
  then show "\<exists>masks g'. get_video_masks_by_moving_random_stroke D video_len P g = Inr (masks, g')"
    by blast
qed

theorem mask_sequence_length_witness:
  "valid_settings default_settings
   \<and> (\<exists>masks g'.
         get_video_masks_by_moving_random_stroke dot_drawing 3 default_settings (const_rng 0 0 0)
           = Inr (masks, g')
         \<and> length masks = 3)
   \<and> (\<exists>mask0 control_points_set g'.
         first_frame dot_drawing default_settings (const_rng 0 0 0)
           = Inr ((mask0, control_points_set), g')
         \<and> get_video_masks_by_moving_random_stroke dot_drawing 1 default_settings
             (const_rng 0 0 0) = Inr ([mask0], g'))"
proof -
  have v: "valid_settings default_settings"
    by (simp add: valid_settings_def default_settings_def)
  from mask_sequence_length [of 3 dot_drawing default_settings "const_rng 0 0 0"]
    mask_sequence_length [of 1 dot_drawing default_settings "const_rng 0 0 0"] v
  show ?thesis by auto
qed

text \<open>
  C3 as stated fails: it does not hold for every sequence of draws under all settings.
  With \<^verbatim>\<open>nVertexBound=(0, 20)\<close> and the draw \<open>numVertex = 0\<close> the stroke has one control
  point and the rasterizer raises \<^verbatim>\<open>UnboundLocalError\<close>; with
  \<^verbatim>\<open>brushWidthBound=(30, 30)\<close> the first \<^verbatim>\<open>randint\<close> raises \<^verbatim>\<open>ValueError\<close>.
\<close>

theorem invalid_settings_raise:
  "get_video_masks_by_moving_random_stroke dot_drawing 5
     (default_settings\<lparr>nVertexBound := (0, 20)\<rparr>) (const_rng 0 0 0) = Inl UnboundLocalError
   \<and> get_video_masks_by_moving_random_stroke dot_drawing 5
       (default_settings\<lparr>brushWidthBound := (30, 30)\<rparr>) (const_rng 0 0 0) = Inl ValueError"
  by (simp add: get_video_masks_by_moving_random_stroke_def first_frame_def rbind_def lift_def
      Image_new_def default_settings_def np_randint_def numeral_3_eq_3
      get_random_stroke_control_points_def random_uniform_def get_random_velocity_def
      random_normal_def ret_def tick_def const_rng_def draw_mask_by_control_points_def)

subsection \<open>The animator leaves its input arrays alone\<close>

lemma pbind_preturn: "pbind (preturn x) f s = f x s"
  by (simp add: pbind_def preturn_def)

lemma pbind_getitem:
  "pbind (getitem a i) f (h, g) =
     (if i \<ge> length (cells h a) then (Inl IndexError, (h, g)) else f (cells h a ! i) (h, g))"
  by (simp add: pbind_def getitem_def)

lemma pbind_setitem:
  "pbind (setitem a i v) f (h, g) =
     (if i \<ge> length (cells h a) then (Inl IndexError, (h, g))
      else f () (h\<lparr>cells := (cells h)(a := (cells h a)[i := v])\<rparr>, g))"
  by (simp add: pbind_def setitem_def)

lemma pbind_from_rand:
  "pbind (from_rand m) f (h, g) =
     (case m g of Inl e \<Rightarrow> (Inl e, (h, g)) | Inr (x, g') \<Rightarrow> f x (h, g'))"
  by (simp add: pbind_def from_rand_def split: sum.splits)

lemma pbind_array_copy:
  "pbind (array_copy a) f (h, g) =
     f (next_addr h)
       (h\<lparr>cells := (cells h)(next_addr h := cells h a), next_addr := Suc (next_addr h)\<rparr>, g)"
  by (simp add: pbind_def array_copy_def)

lemma pbind_array_iadd:
  "pbind (array_iadd a k) f (h, g) =
     f () (h\<lparr>cells := (cells h)(a := map (\<lambda>x. x + k) (cells h a))\<rparr>, g)"
  by (simp add: pbind_def array_iadd_def)

lemma pbind_array_len: "pbind (array_len a) f (h, g) = f (length (cells h a)) (h, g)"
  by (simp add: pbind_def array_len_def)

lemmas pbind_steps = pbind_preturn pbind_getitem pbind_setitem pbind_from_rand pbind_array_copy
  pbind_array_iadd pbind_array_len

lemma loop_view_Inl [simp]: "loop_view ax ay (Inl e, s) = Inl e"
  by (cases s) (simp add: loop_view_def)

lemma store_of_simp [simp]: "store_of (r, h, g) = h"
  by (simp add: store_of_def)

lemma move_chosen_store_view:
  "ax \<noteq> ay \<Longrightarrow>
   loop_view ax ay (move_chosen_store chosen W H m gap ax ay nv (h, g))
     = move_chosen chosen W H m gap (cells h ax, cells h ay, nv) g"
proof (induction chosen arbitrary: h g nv)
  case Nil
  show ?case by (simp add: preturn_def loop_view_def ret_def)
next
  case (Cons i chosen)
  note IH = Cons.IH [OF Cons.prems]
  show ?case
    using Cons.prems
    by (simp add: pbind_steps np_randint_def rbind_def raise_def IH Let_def)
qed

lemma move_chosen_store_frame:
  "ax \<noteq> ay \<Longrightarrow> a \<noteq> ax \<Longrightarrow> a \<noteq> ay \<Longrightarrow>
   cells (store_of (move_chosen_store chosen W H m gap ax ay nv (h, g))) a = cells h a
   \<and> next_addr (store_of (move_chosen_store chosen W H m gap ax ay nv (h, g))) = next_addr h"
proof (induction chosen arbitrary: h g nv)
  case Nil
  show ?case by (simp add: preturn_def)
next
  case (Cons i chosen)
  note IH = Cons.IH [OF Cons.prems]
  show ?case
    using Cons.prems
    by (simp add: pbind_steps np_randint_def IH Let_def)
qed

text \<open>
  C10. For arrays \<open>Xs\<close> and \<open>Ys\<close> allocated in the store before the call, and whether the call
  returns or raises: afterwards \<open>Xs\<close>, \<open>Ys\<close> and every other array that existed before hold
  exactly their old contents. When the call returns, \<open>new_Xs\<close> and \<open>new_Ys\<close> are the two
  addresses allocated by the call, distinct and unused before, and their contents are
  what the value-level \<open>random_move_control_points\<close> computes from the old contents; when it
  raises, the value-level function raises the same exception.
\<close>

theorem inputs_not_mutated:
  assumes "Xs < next_addr h" and "Ys < next_addr h"
  shows "case random_move_control_points_store Xs Ys W H v r m mla gap mis (h, g) of
           (res, h', g') \<Rightarrow>
             cells h' Xs = cells h Xs \<and> cells h' Ys = cells h Ys
             \<and> (\<forall>a < next_addr h. cells h' a = cells h a)
             \<and> (case res of
                   Inl e \<Rightarrow>
                     random_move_control_points (cells h Xs) (cells h Ys) W H v r m mla gap mis g
                       = Inl e
                 | Inr (new_Xs, new_Ys, v') \<Rightarrow>
                     new_Xs = next_addr h \<and> new_Ys = Suc (next_addr h)
                     \<and> random_move_control_points (cells h Xs) (cells h Ys) W H v r m mla gap mis g
                         = Inr ((cells h' new_Xs, cells h' new_Ys, v'), g'))"
proof -
  obtain speed angle where v: "v = (speed, angle)" by (cases v)
  define ax where "ax = next_addr h"
  define ay where "ay = Suc (next_addr h)"
  define new_Xs where "new_Xs = map (\<lambda>x. x + of_int (py_int (speed * cos angle))) (cells h Xs)"
  define new_Ys where "new_Ys = map (\<lambda>y. y + of_int (py_int (speed * sin angle))) (cells h Ys)"
  define h2 where
    "h2 = h\<lparr>next_addr := Suc (Suc (next_addr h)), cells := (cells h)(ax := new_Xs, ay := new_Ys)\<rparr>"
  have ne: "ax \<noteq> ay" "Xs \<noteq> ax" "Xs \<noteq> ay" "Ys \<noteq> ax" "Ys \<noteq> ay"
    using assms by (auto simp: ax_def ay_def)
  have h2: "cells h2 ax = new_Xs" "cells h2 ay = new_Ys" "cells h2 Xs = cells h Xs"
    using ne by (auto simp: h2_def)
  have old: "cells h2 a = cells h a" "a \<noteq> ax" "a \<noteq> ay" if "a < next_addr h" for a
    using that by (auto simp: h2_def ax_def ay_def)
  have start: "random_move_control_points_store Xs Ys W H v r m mla gap mis (h, g) =
      (case random_accelerate v mla ''guassian'' g of
         Inl e \<Rightarrow> (Inl e, (h2, g))
       | Inr (v1, g1) \<Rightarrow>
           (case np_shuffle [0..<length (cells h Xs)] g1 of
              Inl e \<Rightarrow> (Inl e, (h2, g1))
            | Inr (shuffled, g2) \<Rightarrow>
                pbind (move_chosen_store
                         (slice_to (py_int (real (length (cells h Xs)) * r)) shuffled)
                         W H m gap ax ay False)
                  (\<lambda>new_velocity.
                     pbind (if new_velocity then from_rand (get_random_velocity mis ''guassian'')
                            else preturn v1)
                       (\<lambda>v2. preturn (ax, ay, v2)))
                  (h2, g2)))"
    using ne
    by (simp add: random_move_control_points_store_def v pbind_steps Let_def h2_def ax_def ay_def
        new_Xs_def new_Ys_def fun_upd_twist split: sum.splits)
  have pure: "random_move_control_points (cells h Xs) (cells h Ys) W H v r m mla gap mis g =
      (case random_accelerate v mla ''guassian'' g of
         Inl e \<Rightarrow> Inl e
       | Inr (v1, g1) \<Rightarrow>
           (case np_shuffle [0..<length (cells h Xs)] g1 of
              Inl e \<Rightarrow> Inl e
            | Inr (shuffled, g2) \<Rightarrow>
                rbind (move_chosen (slice_to (py_int (real (length (cells h Xs)) * r)) shuffled)
                         W H m gap (new_Xs, new_Ys, False))
                  (\<lambda>(new_Xs', new_Ys', new_velocity).
                     rbind (if new_velocity then get_random_velocity mis ''guassian'' else ret v1)
                       (\<lambda>v2. ret (new_Xs', new_Ys', v2)))
                  g2))"
    by (simp add: random_move_control_points_def v rbind_def Let_def new_Xs_def new_Ys_def
        split: sum.splits)
  show ?thesis
  proof (cases "random_accelerate v mla ''guassian'' g")
    case (Inl e)
    with start pure old h2 ne show ?thesis by (simp add: h2_def)
  next
    case acc: (Inr p1)
    obtain v1 g1 where p1: "p1 = (v1, g1)" by (cases p1)
    show ?thesis
    proof (cases "np_shuffle [0..<length (cells h Xs)] g1")
      case (Inl e)
      with start pure acc p1 old h2 ne show ?thesis by (simp add: h2_def)
    next
      case shf: (Inr p2)
      obtain shuffled g2 where p2: "p2 = (shuffled, g2)" by (cases p2)
      define chosen where "chosen = slice_to (py_int (real (length (cells h Xs)) * r)) shuffled"
      obtain res h3 g3 where run: "move_chosen_store chosen W H m gap ax ay False (h2, g2) = (res, h3, g3)"
        by (cases "move_chosen_store chosen W H m gap ax ay False (h2, g2)") auto
      have view: "loop_view ax ay (res, h3, g3)
                    = move_chosen chosen W H m gap (new_Xs, new_Ys, False) g2"
        using move_chosen_store_view [OF ne(1), of chosen W H m gap False h2 g2] run h2 by simp
      have frame: "cells h3 a = cells h a" if "a < next_addr h" for a
        using move_chosen_store_frame [OF ne(1) old(2,3) [OF that], of chosen W H m gap False h2 g2]
          run old(1) [OF that] by simp
      have keep: "cells h3 Xs = cells h Xs" "cells h3 Ys = cells h Ys"
        using frame assms by auto
      have start': "random_move_control_points_store Xs Ys W H v r m mla gap mis (h, g) =
          (case res of Inl e \<Rightarrow> (Inl e, (h3, g3))
           | Inr new_velocity \<Rightarrow>
               pbind (if new_velocity then from_rand (get_random_velocity mis ''guassian'')
                      else preturn v1)
                 (\<lambda>v2. preturn (ax, ay, v2)) (h3, g3))"
        using start acc p1 shf p2 run by (simp add: chosen_def pbind_def split: sum.splits)
      have pure': "random_move_control_points (cells h Xs) (cells h Ys) W H v r m mla gap mis g =
          rbind (\<lambda>g. loop_view ax ay (res, h3, g3))
            (\<lambda>(new_Xs', new_Ys', new_velocity).
               rbind (if new_velocity then get_random_velocity mis ''guassian'' else ret v1)
                 (\<lambda>v2. ret (new_Xs', new_Ys', v2))) g2"
        using pure acc p1 shf p2 view by (simp add: chosen_def rbind_def)
      show ?thesis
      proof (cases res)
        case (Inl e)
        with start' pure' frame keep show ?thesis by (simp add: rbind_def)
      next
        case (Inr nv)
        show ?thesis
        proof (cases nv)
          case False
          with Inr start' pure' frame keep show ?thesis
            by (simp add: rbind_def loop_view_def pbind_steps preturn_def ret_def ax_def ay_def)
        next
          case True
          with Inr start' pure' frame keep show ?thesis
            by (cases "get_random_velocity mis ''guassian'' g3")
               (auto simp add: rbind_def loop_view_def pbind_steps preturn_def ret_def ax_def ay_def)
        qed
      qed
    qed
  qed
qed

theorem inputs_not_mutated_witness:
  "0 < next_addr (two_arrays [374, 100] [100, 100])
   \<and> 1 < next_addr (two_arrays [374, 100] [100, 100])
   \<and> (case random_move_control_points_store 0 1 424 240 (5, 0) (1/2) 10 (5, 1/2) 50 10
              (two_arrays [374, 100] [100, 100], const_rng 0 0 0) of
         (res, h', g') \<Rightarrow>
           res = Inr (2, 3, (5, 0))
           \<and> cells h' 0 = [374, 100] \<and> cells h' 1 = [100, 100]
           \<and> cells h' 2 = [379, 95] \<and> cells h' 3 = [100, 90])"
proof -
  have run: "random_move_control_points_store 0 1 424 240 (5, 0) (1/2) 10 (5, 1/2) 50 10
               (two_arrays [374, 100] [100, 100], const_rng 0 0 0)
             = (Inr (2, 3, (5, 0)),
                \<lparr>cells = (\<lambda>a. if a = 0 then [374, 100] else if a = 1 then [100, 100] else [])
                          (2 := [379, 95], 3 := [100, 90]),
                 next_addr = 4\<rparr>,
                (const_rng 0 0 0)\<lparr>pos := 5\<rparr>)"
    by (simp add: random_move_control_points_store_def pbind_def array_copy_def array_iadd_def
        two_arrays_def from_rand_def random_accelerate_def rbind_def random_normal_def ret_def
        tick_def const_rng_def array_len_def np_shuffle_def swap_def upt_rec slice_to_def
        py_int_def getitem_def setitem_def np_randint_def np_clip_def preturn_def)
  have a: "0 < next_addr (two_arrays [374, 100] [100, 100])"
    and b: "1 < next_addr (two_arrays [374, 100] [100, 100])"
    by (simp_all add: two_arrays_def)
  from inputs_not_mutated [OF a b, of 424 240 "(5, 0)" "1/2" 10 "(5, 1/2)" 50 10 "const_rng 0 0 0"]
  have "cells (store_of (random_move_control_points_store 0 1 424 240 (5, 0) (1/2) 10 (5, 1/2) 50 10
              (two_arrays [374, 100] [100, 100], const_rng 0 0 0))) 0 = [374, 100]
        \<and> cells (store_of (random_move_control_points_store 0 1 424 240 (5, 0) (1/2) 10 (5, 1/2) 50 10
              (two_arrays [374, 100] [100, 100], const_rng 0 0 0))) 1 = [100, 100]"
    by (simp add: store_of_def two_arrays_def split: prod.splits)
  with a b run show ?thesis by simp
qed

end
